theory Spec2Isabelle
  imports Main "HOL-Library.Word" "HOL-Library.Signed_Division"
begin

section \<open>mod\_log\_rotate: time-windowed rotation of transfer logs\<close>

text \<open>
  A shallow embedding of \<^verbatim>\<open>src/mod_log_rotate.c\<close>. The module's own functions are
  translated one by one and keep their names. What the module calls but does not
  implement (APR, libc, the host server) is either a parameter collected in the record
  \<open>env\<close>, or a result supplied per call in the record \<open>outcomes\<close>.
\<close>

subsection \<open>Machine integers and APR constants\<close>

text \<open>
  \<^verbatim>\<open>apr_time_t\<close> is a signed 64-bit count of microseconds, \<^verbatim>\<open>apr_status_t\<close> an
  \<^verbatim>\<open>int\<close>. Words wrap around; \<open>sint\<close> reads the signed value. C's \<^verbatim>\<open>/\<close> on signed
  integers truncates towards zero, which is \<open>sdiv\<close> on \<open>int\<close>.
\<close>

type_synonym apr_time_t = "64 word"
type_synonym apr_int32_t = "32 word"
type_synonym apr_status_t = int

definition time_div :: "apr_time_t \<Rightarrow> apr_time_t \<Rightarrow> apr_time_t" where
  "time_div a b = word_of_int (sint a sdiv sint b)"

definition APR_SUCCESS :: apr_status_t where
  "APR_SUCCESS = 0"

definition APR_ENOENT :: apr_status_t where
  "APR_ENOENT = 2"

definition APR_EGENERAL :: apr_status_t where
  "APR_EGENERAL = 20014"

definition APR_USEC_PER_SEC :: apr_time_t where
  "APR_USEC_PER_SEC = 1000000"

definition INTERVAL_DEFAULT :: apr_time_t where
  "INTERVAL_DEFAULT = APR_USEC_PER_SEC * 3600 * 24"

definition INTERVAL_MIN :: apr_time_t where
  "INTERVAL_MIN = APR_USEC_PER_SEC * 60"

definition apr_time_sec :: "apr_time_t \<Rightarrow> apr_time_t" where
  "apr_time_sec t = time_div t APR_USEC_PER_SEC"

subsection \<open>Configuration\<close>

datatype rl_enabled = RL_DISABLED | RL_ENABLED | RL_SUBSTITUTIONS

record log_options =
  enabled :: rl_enabled
  interval :: apr_time_t
  offset :: apr_time_t
  localt :: bool

text \<open>The broken-down time of APR; every field is an \<^verbatim>\<open>apr_int32_t\<close>.\<close>

record apr_time_exp_t =
  tm_usec :: apr_int32_t
  tm_sec :: apr_int32_t
  tm_min :: apr_int32_t
  tm_hour :: apr_int32_t
  tm_mday :: apr_int32_t
  tm_mon :: apr_int32_t
  tm_year :: apr_int32_t
  tm_wday :: apr_int32_t
  tm_yday :: apr_int32_t
  tm_isdst :: apr_int32_t
  tm_gmtoff :: apr_int32_t

text \<open>
  The library functions the module relies on. \<open>strftime_full\<close> is the expansion
  \<^verbatim>\<open>strftime\<close> produces when the buffer is large enough; \<open>strftime_junk\<close> is whatever it
  leaves in a buffer of the given size that is too small (C leaves the contents
  indeterminate).
\<close>

record env =
  apr_time_exp_gmt :: "apr_time_t \<Rightarrow> apr_time_exp_t"
  apr_time_exp_lt :: "apr_time_t \<Rightarrow> apr_time_exp_t"
  strftime_full :: "string \<Rightarrow> apr_time_exp_t \<Rightarrow> string"
  strftime_junk :: "nat \<Rightarrow> string \<Rightarrow> apr_time_exp_t \<Rightarrow> string"
  atol :: "string \<Rightarrow> 64 word"

definition make_log_options :: log_options where
  "make_log_options =
     \<lparr>enabled = RL_ENABLED, interval = INTERVAL_DEFAULT, offset = 0, localt = False\<rparr>"

definition set_rotated_logs :: "log_options \<Rightarrow> bool \<Rightarrow> log_options" where
  "set_rotated_logs ls flag = ls\<lparr>enabled := (if flag then RL_ENABLED else RL_DISABLED)\<rparr>"

definition set_localtime :: "log_options \<Rightarrow> bool \<Rightarrow> log_options" where
  "set_localtime ls flag = ls\<lparr>localt := flag\<rparr>"

text \<open>
  \<^verbatim>\<open>set_interval\<close>: the interval is given in seconds, the optional offset in minutes; a
  null argument is \<open>None\<close>. \<open>word_sless\<close> is the signed comparison.
\<close>

definition set_interval :: "env \<Rightarrow> log_options \<Rightarrow> string option \<Rightarrow> string option \<Rightarrow> log_options" where
  "set_interval E ls inte offs =
     (let ls1 = (case inte of
                   None \<Rightarrow> ls
                 | Some i \<Rightarrow>
                     (let ls' = ls\<lparr>interval := APR_USEC_PER_SEC * atol E i\<rparr>
                      in if interval ls' <s INTERVAL_MIN
                         then ls'\<lparr>interval := INTERVAL_MIN\<rparr> else ls'))
      in (case offs of
            None \<Rightarrow> ls1
          | Some f \<Rightarrow> ls1\<lparr>offset := APR_USEC_PER_SEC * 60 * atol E f\<rparr>))"

subsection \<open>The rotated log and the world around it\<close>

text \<open>
  Pools and open files are identified by numbers; a null pointer is \<open>None\<close>. Both
  \<^verbatim>\<open>apr_anylock_t\<close> fields alias one reader-writer lock (\<^verbatim>\<open>lock.rw\<close>), whose state
  is kept in the world; the field itself only carries the lock type. The module uses
  three of APR's lock types.
\<close>

type_synonym apr_pool_t = nat
type_synonym apr_file_t = nat

datatype apr_anylock_type = apr_anylock_none | apr_anylock_readlock | apr_anylock_writelock

record rotated_log =
  pool :: "apr_pool_t option"
  fname :: string
  fd :: "apr_file_t option"
  logtime :: apr_time_t
  read_lock :: apr_anylock_type
  write_lock :: apr_anylock_type
  st :: log_options

record request_rec =
  request_time :: apr_time_t

text \<open>
  What the calling thread holds on the reader-writer lock, and everything it does to
  the outside, in order (the latest event last).
\<close>

datatype lock_mode = Unlocked | Shared | Exclusive

datatype event =
    Log_debug apr_time_t apr_time_t
  | Log_error apr_status_t string
  | Rdlock apr_status_t
  | Wrlock apr_status_t
  | Unlock apr_status_t
  | Pool_create apr_pool_t apr_status_t
  | Pool_destroy "apr_pool_t option"
  | File_open string apr_pool_t apr_status_t
  | File_close "apr_file_t option" apr_status_t
  | File_write "apr_file_t option" string apr_status_t

record world =
  rw_held :: lock_mode
  live_pools :: "apr_pool_t list"
  fresh :: nat
  trace :: "event list"

text \<open>
  The results of the calls one invocation of the log writer makes into APR, one field
  per call site (each site runs at most once per invocation), and what the other
  threads do to the shared \<^verbatim>\<open>rotated_log\<close> at the four places where this thread
  holds no lock.
\<close>

record outcomes =
  rdlock_rv :: apr_status_t
  rdunlock_rv :: apr_status_t
  wrlock_rv :: apr_status_t
  dc_unlock_rv :: apr_status_t
  dc_lock_rv :: apr_status_t
  pool_create_rv :: apr_status_t
  pc_unlock_rv :: apr_status_t
  file_open_rv :: apr_status_t
  file_close_rv :: apr_status_t
  wrunlock_rv :: apr_status_t
  relock_rv :: apr_status_t
  file_write_rv :: apr_status_t
  unlock_rv :: apr_status_t
  others1 :: "rotated_log \<Rightarrow> rotated_log"
  others2 :: "rotated_log \<Rightarrow> rotated_log"
  others3 :: "rotated_log \<Rightarrow> rotated_log"
  others4 :: "rotated_log \<Rightarrow> rotated_log"

definition log_event :: "event \<Rightarrow> world \<Rightarrow> world" where
  "log_event e w = w\<lparr>trace := trace w @ [e]\<rparr>"

text \<open>
  Other threads only ever assign \<^verbatim>\<open>logtime\<close>, \<^verbatim>\<open>fd\<close> and \<^verbatim>\<open>pool\<close> (in
  \<^verbatim>\<open>ap_lock_log\<close>); the remaining fields are fixed at initialisation.
\<close>

definition interfere :: "(rotated_log \<Rightarrow> rotated_log) \<Rightarrow> rotated_log \<Rightarrow> rotated_log" where
  "interfere f rl = rl\<lparr>logtime := logtime (f rl), fd := fd (f rl), pool := pool (f rl)\<rparr>"

text \<open>
  The macros of \<^verbatim>\<open>apr_anylock.h\<close>: a lock of type none always succeeds and does
  nothing; otherwise the reader-writer lock is taken in the mode of the type, and
  unlocking releases whatever is held.
\<close>

definition APR_ANYLOCK_LOCK :: "apr_anylock_type \<Rightarrow> apr_status_t \<Rightarrow> world \<Rightarrow> apr_status_t \<times> world" where
  "APR_ANYLOCK_LOCK lck rv w =
     (case lck of
        apr_anylock_none \<Rightarrow> (APR_SUCCESS, w)
      | apr_anylock_readlock \<Rightarrow>
          (rv, log_event (Rdlock rv) (if rv = APR_SUCCESS then w\<lparr>rw_held := Shared\<rparr> else w))
      | apr_anylock_writelock \<Rightarrow>
          (rv, log_event (Wrlock rv) (if rv = APR_SUCCESS then w\<lparr>rw_held := Exclusive\<rparr> else w)))"

definition APR_ANYLOCK_UNLOCK :: "apr_anylock_type \<Rightarrow> apr_status_t \<Rightarrow> world \<Rightarrow> apr_status_t \<times> world" where
  "APR_ANYLOCK_UNLOCK lck rv w =
     (case lck of
        apr_anylock_none \<Rightarrow> (APR_SUCCESS, w)
      | _ \<Rightarrow> (rv, log_event (Unlock rv) (if rv = APR_SUCCESS then w\<lparr>rw_held := Unlocked\<rparr> else w)))"

text \<open>Pools and files of APR: creation hands out a fresh identifier.\<close>

definition apr_pool_create :: "apr_status_t \<Rightarrow> world \<Rightarrow> apr_status_t \<times> apr_pool_t \<times> world" where
  "apr_pool_create rv w =
     (let np = fresh w
      in if rv = APR_SUCCESS
         then (rv, np, log_event (Pool_create np rv)
                         (w\<lparr>fresh := Suc np, live_pools := np # live_pools w\<rparr>))
         else (rv, np, log_event (Pool_create np rv) w))"

definition apr_pool_destroy :: "apr_pool_t option \<Rightarrow> world \<Rightarrow> world" where
  "apr_pool_destroy p w =
     log_event (Pool_destroy p)
       (case p of None \<Rightarrow> w | Some q \<Rightarrow> w\<lparr>live_pools := removeAll q (live_pools w)\<rparr>)"

definition apr_file_open :: "apr_status_t \<Rightarrow> string \<Rightarrow> apr_pool_t \<Rightarrow> world \<Rightarrow> apr_status_t \<times> apr_file_t \<times> world" where
  "apr_file_open rv name p w =
     (let f = fresh w
      in if rv = APR_SUCCESS
         then (rv, f, log_event (File_open name p rv) (w\<lparr>fresh := Suc f\<rparr>))
         else (rv, f, log_event (File_open name p rv) w))"

text \<open>
  \<^verbatim>\<open>apr_file_close\<close>: the call is recorded with the file it is given and the result
  is the library's. For a null file libapr dereferences the pointer, so that the real
  call does not return; the model records \<open>File_close None\<close> and goes on. What it
  says about the events after such a call describes no run of the real system.
  Lemma \<open>lock_closes_no_null_file\<close> shows that \<^verbatim>\<open>ap_lock_log\<close> makes no such
  call when it starts with a file, and \<open>first_rotation_closes_null_file\<close> that it
  makes one on the first rotation after initialisation in the parent process.
\<close>

definition apr_file_close :: "apr_status_t \<Rightarrow> apr_file_t option \<Rightarrow> world \<Rightarrow> apr_status_t \<times> world" where
  "apr_file_close rv f w = (rv, log_event (File_close f rv) w)"

text \<open>\<^verbatim>\<open>apr_file_write\<close> writes the first \<open>len\<close> bytes of the buffer.\<close>

definition apr_file_write :: "apr_status_t \<Rightarrow> apr_file_t option \<Rightarrow> string \<Rightarrow> nat \<Rightarrow> world \<Rightarrow> apr_status_t \<times> world" where
  "apr_file_write rv f str len w = (rv, log_event (File_write f (take len str) rv) w)"

text \<open>
  \<^verbatim>\<open>apr_strftime\<close> with a buffer of \<open>maxsize\<close> bytes: the expansion is stored when it fits
  together with its terminating null byte.
\<close>

definition apr_strftime :: "env \<Rightarrow> nat \<Rightarrow> string \<Rightarrow> apr_time_exp_t \<Rightarrow> string" where
  "apr_strftime E maxsize format tm =
     (if length (strftime_full E format tm) < maxsize
      then strftime_full E format tm
      else strftime_junk E maxsize format tm)"

text \<open>
  Decimal output of \<^verbatim>\<open>apr_psprintf\<close> for a signed integer
  (\<^verbatim>\<open>APR_TIME_T_FMT\<close>).
\<close>

definition digit_char :: "nat \<Rightarrow> char" where
  "digit_char d = ''0123456789'' ! d"

function dec_digits :: "int \<Rightarrow> string" where
  "dec_digits n =
     (if n < 10 then [digit_char (nat n)]
      else dec_digits (n div 10) @ [digit_char (nat (n mod 10))])"
  by pat_completeness auto
termination
  by (relation "measure nat") auto

declare dec_digits.simps [simp del]

definition dec_int :: "int \<Rightarrow> string" where
  "dec_int i = (if i < 0 then CHR ''-'' # dec_digits (- i) else dec_digits i)"

subsection \<open>Naming and opening a log file\<close>

text \<open>
  The loop of \<^verbatim>\<open>ap_pstrftime\<close>: ten more bytes for every \<^verbatim>\<open>%\<close> in the format.
\<close>

fun pstrftime_len :: "string \<Rightarrow> nat \<Rightarrow> nat" where
  "pstrftime_len [] len = len"
| "pstrftime_len (c # fp) len =
     (if c = CHR ''%'' then pstrftime_len fp (len + 10) else pstrftime_len fp len)"

definition ap_pstrftime :: "env \<Rightarrow> string \<Rightarrow> apr_time_exp_t \<Rightarrow> string" where
  "ap_pstrftime E format tm =
     (let len = pstrftime_len format (length format + 1)
      in apr_strftime E len format tm)"

definition ap_open_log :: "env \<Rightarrow> apr_status_t \<Rightarrow> apr_pool_t \<Rightarrow> string \<Rightarrow> log_options \<Rightarrow> apr_time_t \<Rightarrow> world \<Rightarrow> apr_file_t option \<times> world" where
  "ap_open_log E open_rv p name ls tm w =
     (let log_time = tm - offset ls;
          name = (if enabled ls = RL_SUBSTITUTIONS
                  then ap_pstrftime E name (apr_time_exp_gmt E log_time)
                  else name @ ''.'' @ dec_int (sint (apr_time_sec log_time)));
          (rv, f, w) = apr_file_open open_rv name p w
      in if rv \<noteq> APR_SUCCESS
         then (None, log_event (Log_error rv (''could not open transfer log file '' @ name @ ''.'')) w)
         else (Some f, w))"

definition ap_close_log :: "apr_status_t \<Rightarrow> apr_file_t option \<Rightarrow> world \<Rightarrow> apr_status_t \<times> world" where
  "ap_close_log close_rv f w =
     (let (rv, w) = apr_file_close close_rv f w
      in if rv \<noteq> APR_SUCCESS
         then (rv, log_event (Log_error rv ''error closing transfer log file.'') w)
         else (rv, w))"

subsection \<open>Quantizing a time to the rotation interval\<close>

definition ap_get_quantized_time :: "env \<Rightarrow> rotated_log \<Rightarrow> apr_time_t \<Rightarrow> apr_time_t" where
  "ap_get_quantized_time E rl tm =
     (let localadj =
            (if localt (st rl)
             then scast (tm_gmtoff (apr_time_exp_lt E tm)) * APR_USEC_PER_SEC
             else 0)
      in time_div (tm + offset (st rl) + localadj) (interval (st rl)) * interval (st rl))"

subsection \<open>Locking the log, rotating it when the window has changed\<close>

definition ap_lock_log :: "env \<Rightarrow> outcomes \<Rightarrow> rotated_log \<Rightarrow> request_rec \<Rightarrow> world \<Rightarrow> apr_status_t \<times> rotated_log \<times> world" where
  "ap_lock_log E X rl r w =
     (let logt = ap_get_quantized_time E rl (request_time r);
          w = log_event (Log_debug logt (logtime rl)) w;
          (rv, w) = APR_ANYLOCK_LOCK (read_lock rl) (rdlock_rv X) w
      in if rv \<noteq> APR_SUCCESS then (rv, rl, w)
         else if logt = logtime rl \<and> fd rl \<noteq> None then (APR_SUCCESS, rl, w)
         else
          (let (rv, w) = APR_ANYLOCK_UNLOCK (read_lock rl) (rdunlock_rv X) w
           in if rv \<noteq> APR_SUCCESS then (rv, rl, w)
              else
               (let rl = interfere (others1 X) rl;
                    (rv, w) = APR_ANYLOCK_LOCK (write_lock rl) (wrlock_rv X) w
                in if rv \<noteq> APR_SUCCESS then (rv, rl, w)
                   else if logt = logtime rl \<and> fd rl \<noteq> None then
                     (let (rv, w) = APR_ANYLOCK_UNLOCK (write_lock rl) (dc_unlock_rv X) w
                      in if rv \<noteq> APR_SUCCESS then (rv, rl, w)
                         else
                          (let rl = interfere (others2 X) rl;
                               (rv, w) = APR_ANYLOCK_LOCK (write_lock rl) (dc_lock_rv X) w
                           in (rv, rl, w)))
                   else
                     (let ofd = fd rl;
                          rl = rl\<lparr>logtime := logt\<rparr>;
                          (rv, np, w) = apr_pool_create (pool_create_rv X) w
                      in if rv \<noteq> APR_SUCCESS then
                           (let (_, w) = APR_ANYLOCK_UNLOCK (write_lock rl) (pc_unlock_rv X) w
                            in (rv, rl, w))
                         else
                          (let (nfd, w) = ap_open_log E (file_open_rv X) np (fname rl) (st rl) logt w;
                               rl = rl\<lparr>fd := nfd\<rparr>;
                               (rl, w) =
                                 (if fd rl = None
                                  then (rl\<lparr>fd := ofd\<rparr>, apr_pool_destroy (Some np) w)
                                  else (let (_, w) = ap_close_log (file_close_rv X) ofd w;
                                            w = apr_pool_destroy (pool rl) w
                                        in (rl\<lparr>pool := Some np\<rparr>, w)));
                               (rv, w) = APR_ANYLOCK_UNLOCK (write_lock rl) (wrunlock_rv X) w
                           in if rv \<noteq> APR_SUCCESS then (rv, rl, w)
                              else
                               (let rl = interfere (others3 X) rl
                                in if fd rl = None then (APR_ENOENT, rl, w)
                                   else
                                    (let rl = interfere (others4 X) rl;
                                         (rv, w) = APR_ANYLOCK_LOCK (read_lock rl) (relock_rv X) w
                                     in (rv, rl, w))))))))"

definition ap_unlock_log :: "outcomes \<Rightarrow> rotated_log \<Rightarrow> world \<Rightarrow> apr_status_t \<times> world" where
  "ap_unlock_log X rl w = APR_ANYLOCK_UNLOCK (read_lock rl) (unlock_rv X) w"

subsection \<open>Writing a log line\<close>

text \<open>
  The copy loop of the writer: \<open>nelts\<close> pieces, piece \<open>i\<close> contributing its first
  \<open>strl[i]\<close> bytes.
\<close>

fun copy_strs :: "string list \<Rightarrow> nat list \<Rightarrow> nat \<Rightarrow> string" where
  "copy_strs (s # strs) (l # strl) (Suc nelts) = take l s @ copy_strs strs strl nelts"
| "copy_strs _ _ _ = []"

definition ap_rotated_log_writer :: "env \<Rightarrow> outcomes \<Rightarrow> request_rec \<Rightarrow> rotated_log option \<Rightarrow> string list \<Rightarrow> nat list \<Rightarrow> nat \<Rightarrow> nat \<Rightarrow> world \<Rightarrow> apr_status_t \<times> rotated_log option \<times> world" where
  "ap_rotated_log_writer E X r handle strs strl nelts len w =
     (case handle of
        None \<Rightarrow>
          (APR_EGENERAL, None,
           log_event (Log_error APR_EGENERAL ''log rotation information not found.'') w)
      | Some rl \<Rightarrow>
          (let str = copy_strs strs strl nelts
           in if enabled (st rl) = RL_DISABLED then
                (let (rv, w) = apr_file_write (file_write_rv X) (fd rl) str len w
                 in (rv, Some rl, w))
              else
               (let (rv, rl, w) = ap_lock_log E X rl r w
                in if rv \<noteq> APR_SUCCESS then (rv, Some rl, w)
                   else
                    (let (rv, w) = apr_file_write (file_write_rv X) (fd rl) str len w
                     in if rv \<noteq> APR_SUCCESS then (rv, Some rl, w)
                        else
                         (let (rv, w) = ap_unlock_log X rl w
                          in (rv, Some rl, w))))))"

subsection \<open>The window start as the specification words it\<close>

text \<open>
  The specification computes on mathematical integers:
  \<open>adjusted = now + offset\<close>, plus the signed local-UTC offset at \<open>now\<close> in
  local-time mode, and the window start is \<open>floor (adjusted / interval) * interval\<close>.
\<close>

definition local_adjustment :: "env \<Rightarrow> rotated_log \<Rightarrow> apr_time_t \<Rightarrow> int" where
  "local_adjustment E rl now =
     (if localt (st rl) then sint (tm_gmtoff (apr_time_exp_lt E now)) * 1000000 else 0)"

definition adjusted :: "env \<Rightarrow> rotated_log \<Rightarrow> apr_time_t \<Rightarrow> int" where
  "adjusted E rl now = sint now + sint (offset (st rl)) + local_adjustment E rl now"

definition computeWindowStart_spec :: "env \<Rightarrow> rotated_log \<Rightarrow> apr_time_t \<Rightarrow> int" where
  "computeWindowStart_spec E rl now =
     (adjusted E rl now div sint (interval (st rl))) * sint (interval (st rl))"

subsection \<open>A concrete environment\<close>

text \<open>
  An instance of the library functions, used to run the model on concrete inputs: the
  proleptic Gregorian calendar in UTC (the local zone is UTC as well), and
  \<^verbatim>\<open>strftime\<close> in the C locale for the conversions
  \<^verbatim>\<open>%Y %m %d %H %M %S %c %%\<close>; a buffer that is too small is left with the
  truncated expansion.
\<close>

definition two_digits :: "int \<Rightarrow> string" where
  "two_digits k = [digit_char (nat (k div 10 mod 10)), digit_char (nat (k mod 10))]"

definition civil_year :: "int \<Rightarrow> int" where
  "civil_year days =
     (let z = days + 719468;
          era = z div 146097;
          doe = z mod 146097;
          yoe = (doe - doe div 1460 + doe div 36524 - doe div 146096) div 365;
          doy = doe - (365 * yoe + yoe div 4 - yoe div 100);
          mp = (5 * doy + 2) div 153
      in yoe + era * 400 + (if mp < 10 then 0 else 1))"

definition civil_month :: "int \<Rightarrow> int" where
  "civil_month days =
     (let z = days + 719468;
          doe = z mod 146097;
          yoe = (doe - doe div 1460 + doe div 36524 - doe div 146096) div 365;
          doy = doe - (365 * yoe + yoe div 4 - yoe div 100);
          mp = (5 * doy + 2) div 153
      in if mp < 10 then mp + 3 else mp - 9)"

definition civil_day :: "int \<Rightarrow> int" where
  "civil_day days =
     (let z = days + 719468;
          doe = z mod 146097;
          yoe = (doe - doe div 1460 + doe div 36524 - doe div 146096) div 365;
          doy = doe - (365 * yoe + yoe div 4 - yoe div 100);
          mp = (5 * doy + 2) div 153
      in doy - (153 * mp + 2) div 5 + 1)"

text \<open>
  APR divides the microseconds by a million with the division of C
  (\<^verbatim>\<open>t / APR_USEC_PER_SEC\<close> and \<^verbatim>\<open>t % APR_USEC_PER_SEC\<close>) and hands the seconds to
  \<^verbatim>\<open>gmtime_r\<close>. The day of the year and the daylight saving flag are not computed:
  none of the conversions below reads them.
\<close>

definition utc_exp :: "apr_time_t \<Rightarrow> apr_time_exp_t" where
  "utc_exp t =
     (let secs = sint t sdiv 1000000;
          days = secs div 86400;
          rem = secs mod 86400
      in \<lparr>tm_usec = word_of_int (sint t - secs * 1000000),
          tm_sec = word_of_int (rem mod 60),
          tm_min = word_of_int (rem mod 3600 div 60),
          tm_hour = word_of_int (rem div 3600),
          tm_mday = word_of_int (civil_day days),
          tm_mon = word_of_int (civil_month days - 1),
          tm_year = word_of_int (civil_year days - 1900),
          tm_wday = word_of_int ((days + 4) mod 7),
          tm_yday = 0,
          tm_isdst = 0,
          tm_gmtoff = 0\<rparr>)"

definition day_name :: "int \<Rightarrow> string" where
  "day_name d = [''Sun'', ''Mon'', ''Tue'', ''Wed'', ''Thu'', ''Fri'', ''Sat''] ! nat (d mod 7)"

definition month_name :: "int \<Rightarrow> string" where
  "month_name m = [''Jan'', ''Feb'', ''Mar'', ''Apr'', ''May'', ''Jun'',
                   ''Jul'', ''Aug'', ''Sep'', ''Oct'', ''Nov'', ''Dec''] ! nat (m mod 12)"

definition c_conversion :: "char \<Rightarrow> apr_time_exp_t \<Rightarrow> string" where
  "c_conversion d tm =
     (if d = CHR ''Y'' then dec_int (sint (tm_year tm) + 1900)
      else if d = CHR ''m'' then two_digits (sint (tm_mon tm) + 1)
      else if d = CHR ''d'' then two_digits (sint (tm_mday tm))
      else if d = CHR ''H'' then two_digits (sint (tm_hour tm))
      else if d = CHR ''M'' then two_digits (sint (tm_min tm))
      else if d = CHR ''S'' then two_digits (sint (tm_sec tm))
      else if d = CHR ''c'' then
        day_name (sint (tm_wday tm)) @ '' '' @ month_name (sint (tm_mon tm)) @ '' '' @
        (if sint (tm_mday tm) < 10 then '' '' @ dec_int (sint (tm_mday tm))
         else dec_int (sint (tm_mday tm))) @ '' '' @
        two_digits (sint (tm_hour tm)) @ '':'' @ two_digits (sint (tm_min tm)) @ '':'' @
        two_digits (sint (tm_sec tm)) @ '' '' @ dec_int (sint (tm_year tm) + 1900)
      else if d = CHR ''%'' then ''%''
      else [CHR ''%'', d])"

fun c_strftime :: "string \<Rightarrow> apr_time_exp_t \<Rightarrow> string" where
  "c_strftime (c # d # cs) tm =
     (if c = CHR ''%'' then c_conversion d tm @ c_strftime cs tm
      else c # c_strftime (d # cs) tm)"
| "c_strftime cs tm = cs"

text \<open>
  \<^verbatim>\<open>atol\<close> for a 64-bit \<^verbatim>\<open>long\<close>, as \<^verbatim>\<open>strtol\<close> computes it in base ten:
  leading white space, an optional sign, then the digits up to the first character
  that is none; a value out of range is \<^verbatim>\<open>LONG_MAX\<close> or \<^verbatim>\<open>LONG_MIN\<close>.
\<close>

definition c_isspace :: "char \<Rightarrow> bool" where
  "c_isspace c = ((of_char c :: nat) = 32 \<or> 9 \<le> (of_char c :: nat) \<and> (of_char c :: nat) \<le> 13)"

fun c_atol_digits :: "int \<Rightarrow> string \<Rightarrow> int" where
  "c_atol_digits acc [] = acc"
| "c_atol_digits acc (c # cs) =
     (if 48 \<le> (of_char c :: nat) \<and> (of_char c :: nat) \<le> 57
      then c_atol_digits (10 * acc + (int (of_char c) - 48)) cs
      else acc)"

definition c_atol :: "string \<Rightarrow> 64 word" where
  "c_atol s =
     (case dropWhile c_isspace s of
        [] \<Rightarrow> 0
      | c # cs \<Rightarrow>
          if c = CHR ''-'' then word_of_int (max (- c_atol_digits 0 cs) (- (2 ^ 63)))
          else if c = CHR ''+'' then word_of_int (min (c_atol_digits 0 cs) (2 ^ 63 - 1))
          else word_of_int (min (c_atol_digits 0 (c # cs)) (2 ^ 63 - 1)))"

definition utc_env :: env where
  "utc_env =
     \<lparr>apr_time_exp_gmt = utc_exp,
      apr_time_exp_lt = utc_exp,
      strftime_full = c_strftime,
      strftime_junk = (\<lambda>n format tm. take (n - 1) (c_strftime format tm)),
      atol = c_atol\<rparr>"

definition demo_log :: rotated_log where
  "demo_log =
     \<lparr>pool = Some 0, fname = ''logs/access_log'', fd = Some 1, logtime = 0,
      read_lock = apr_anylock_none, write_lock = apr_anylock_none,
      st = make_log_options\<rparr>"

subsection \<open>Reading the trace; the file name as the specification words it\<close>

text \<open>The names the thread tried to open, with the result of each attempt.\<close>

definition open_attempts :: "event list \<Rightarrow> (string \<times> apr_status_t) list" where
  "open_attempts tr =
     concat (map (\<lambda>e. case e of File_open name p rv \<Rightarrow> [(name, rv)] | _ \<Rightarrow> []) tr)"

text \<open>
  Suffix mode in the specification: \<open>base + "." + floor ((windowStart - offset) / 1_000_000)\<close>.
\<close>

definition formatName_suffix_spec :: "string \<Rightarrow> int \<Rightarrow> int \<Rightarrow> string" where
  "formatName_suffix_spec base windowStart off =
     base @ ''.'' @ dec_int ((windowStart - off) div 1000000)"

text \<open>Concrete inputs for running the model.\<close>

definition demo_world :: world where
  "demo_world = \<lparr>rw_held = Unlocked, live_pools = [0], fresh = 2, trace = []\<rparr>"

definition hourly_pattern :: log_options where
  "hourly_pattern =
     \<lparr>enabled = RL_SUBSTITUTIONS, interval = 3600000000, offset = 1800000000, localt = True\<rparr>"

subsection \<open>Initialising a log writer\<close>

text \<open>
  What \<^verbatim>\<open>ap_rotated_log_writer_init\<close> gets from the server and from APR: whether the
  piped log could be opened and its write handle, the number of threads of the MPM, the
  result of creating the reader-writer lock, the current time, the path relative to the
  server root (null for an invalid path), the results of creating the pool, opening and
  closing the file, and the value of the environment variable \<^verbatim>\<open>AP_PARENT_PID\<close>
  (null in the parent process).
\<close>

record init_outcomes =
  open_piped_log :: bool
  piped_log_write_fd :: "apr_file_t option"
  mpm_threads :: int
  rwlock_create_rv :: apr_status_t
  time_now :: apr_time_t
  server_root_relative :: "string option"
  init_pool_rv :: apr_status_t
  init_open_rv :: apr_status_t
  parent_pid :: "string option"
  init_close_rv :: apr_status_t

definition APR_EBADPATH :: apr_status_t where
  "APR_EBADPATH = 20024"

text \<open>
  The writer starts with the server's options. A name that starts with a bar is a piped
  log, for which rotation is disabled. In the parent process the file is opened and then
  closed again, and \<^verbatim>\<open>fd\<close> is left null: the first write opens it.
\<close>

definition ap_rotated_log_writer_init :: "env \<Rightarrow> init_outcomes \<Rightarrow> log_options \<Rightarrow> string \<Rightarrow> world \<Rightarrow> rotated_log option \<times> world" where
  "ap_rotated_log_writer_init E I ls name w =
     (let rl = \<lparr>pool = None, fname = [], fd = None, logtime = 0,
                read_lock = apr_anylock_none, write_lock = apr_anylock_none, st = ls\<rparr>
      in if take 1 name = ''|'' then
           (let rl = rl\<lparr>st := (st rl)\<lparr>enabled := RL_DISABLED\<rparr>\<rparr>;
                w = log_event (Log_error APR_SUCCESS
                      (''disabled log rotation for piped log '' @ name @ ''.'')) w
            in if \<not> open_piped_log I
               then (None, log_event (Log_error APR_EGENERAL ''piped log file not loaded.'') w)
               else (let rl = rl\<lparr>fd := piped_log_write_fd I\<rparr>
                     in if fd rl = None
                        then (None, log_event
                                (Log_error APR_EGENERAL ''piped log file handle not loaded.'') w)
                        else (Some rl, w)))
         else
          (let (rl, w) =
                 (if 1 < mpm_threads I then
                    (if rwlock_create_rv I \<noteq> APR_SUCCESS
                     then (rl, log_event (Log_error (rwlock_create_rv I)
                             (''could not initialize log rotation write lock, '' @
                              ''transfer log may become corrupted'')) w)
                     else (rl\<lparr>write_lock := apr_anylock_writelock,
                              read_lock := apr_anylock_readlock\<rparr>, w))
                  else (rl, w));
               rl = rl\<lparr>logtime := ap_get_quantized_time E rl (time_now I)\<rparr>;
               rl = (if CHR ''%'' \<in> set name
                     then rl\<lparr>st := (st rl)\<lparr>enabled := RL_SUBSTITUTIONS\<rparr>\<rparr> else rl)
           in case server_root_relative I of
                None \<Rightarrow>
                  (None, log_event (Log_error APR_EBADPATH
                           (''invalid transfer log path '' @ name @ ''.'')) w)
              | Some path \<Rightarrow>
                  (let rl = rl\<lparr>fname := path\<rparr>;
                       (rv, p, w) = apr_pool_create (init_pool_rv I) w
                   in if rv \<noteq> APR_SUCCESS
                      then (None, log_event (Log_error rv ''can't make log rotation pool.'') w)
                      else
                       (let rl = rl\<lparr>pool := Some p\<rparr>;
                            (f, w) = ap_open_log E (init_open_rv I) p (fname rl) (st rl)
                                       (logtime rl) w;
                            rl = rl\<lparr>fd := f\<rparr>
                        in if fd rl = None then (None, w)
                           else if parent_pid I = None then
                             (let (_, w) = ap_close_log (init_close_rv I) (fd rl) w
                              in (Some (rl\<lparr>fd := None\<rparr>), w))
                           else (Some rl, w)))))"

subsection \<open>The parts of \<^verbatim>\<open>ap_lock_log\<close>\<close>

text \<open>
  For reasoning, the body of \<^verbatim>\<open>ap_lock_log\<close> is cut at its branches, from the end:
  releasing the write lock and taking the read lock again (source lines 236 to 247),
  replacing the file (222 to 234), the rotation (210 to 247), the branch of the second
  check (200 to 208) and everything after the first check (187 to 247). Lemma
  \<open>ap_lock_log_parts\<close> shows that the function is the composition of these parts.
\<close>

definition relock_shared :: "outcomes \<Rightarrow> rotated_log \<Rightarrow> world \<Rightarrow> apr_status_t \<times> rotated_log \<times> world" where
  "relock_shared X rl w =
     (let (rv, w) = APR_ANYLOCK_UNLOCK (write_lock rl) (wrunlock_rv X) w
      in if rv \<noteq> APR_SUCCESS then (rv, rl, w)
         else
          (let rl = interfere (others3 X) rl
           in if fd rl = None then (APR_ENOENT, rl, w)
              else
               (let rl = interfere (others4 X) rl;
                    (rv, w) = APR_ANYLOCK_LOCK (read_lock rl) (relock_rv X) w
                in (rv, rl, w))))"

definition replace_file :: "env \<Rightarrow> outcomes \<Rightarrow> rotated_log \<Rightarrow> apr_file_t option \<Rightarrow> apr_pool_t \<Rightarrow> apr_time_t \<Rightarrow> world \<Rightarrow> rotated_log \<times> world" where
  "replace_file E X rl ofd np logt w =
     (let (nfd, w) = ap_open_log E (file_open_rv X) np (fname rl) (st rl) logt w;
          rl = rl\<lparr>fd := nfd\<rparr>
      in if fd rl = None
         then (rl\<lparr>fd := ofd\<rparr>, apr_pool_destroy (Some np) w)
         else (let (_, w) = ap_close_log (file_close_rv X) ofd w;
                   w = apr_pool_destroy (pool rl) w
               in (rl\<lparr>pool := Some np\<rparr>, w)))"

definition rotate :: "env \<Rightarrow> outcomes \<Rightarrow> rotated_log \<Rightarrow> apr_time_t \<Rightarrow> world \<Rightarrow> apr_status_t \<times> rotated_log \<times> world" where
  "rotate E X rl logt w =
     (let ofd = fd rl;
          rl = rl\<lparr>logtime := logt\<rparr>;
          (rv, np, w) = apr_pool_create (pool_create_rv X) w
      in if rv \<noteq> APR_SUCCESS then
           (let (_, w) = APR_ANYLOCK_UNLOCK (write_lock rl) (pc_unlock_rv X) w
            in (rv, rl, w))
         else
          (let (rl, w) = replace_file E X rl ofd np logt w
           in relock_shared X rl w))"

definition double_check :: "outcomes \<Rightarrow> rotated_log \<Rightarrow> world \<Rightarrow> apr_status_t \<times> rotated_log \<times> world" where
  "double_check X rl w =
     (let (rv, w) = APR_ANYLOCK_UNLOCK (write_lock rl) (dc_unlock_rv X) w
      in if rv \<noteq> APR_SUCCESS then (rv, rl, w)
         else
          (let rl = interfere (others2 X) rl;
               (rv, w) = APR_ANYLOCK_LOCK (write_lock rl) (dc_lock_rv X) w
           in (rv, rl, w)))"

definition slow_path :: "env \<Rightarrow> outcomes \<Rightarrow> rotated_log \<Rightarrow> apr_time_t \<Rightarrow> world \<Rightarrow> apr_status_t \<times> rotated_log \<times> world" where
  "slow_path E X rl logt w =
     (let (rv, w) = APR_ANYLOCK_UNLOCK (read_lock rl) (rdunlock_rv X) w
      in if rv \<noteq> APR_SUCCESS then (rv, rl, w)
         else
          (let rl = interfere (others1 X) rl;
               (rv, w) = APR_ANYLOCK_LOCK (write_lock rl) (wrlock_rv X) w
           in if rv \<noteq> APR_SUCCESS then (rv, rl, w)
              else if logt = logtime rl \<and> fd rl \<noteq> None then double_check X rl w
              else rotate E X rl logt w))"

subsection \<open>A sequence of log lines\<close>

text \<open>
  The logging subsystem calls the writer once per request. A call carries the results
  of its calls into APR, the request and the pieces of the line.
\<close>

record call =
  c_outcomes :: outcomes
  c_request :: request_rec
  c_strs :: "string list"
  c_strl :: "nat list"
  c_nelts :: nat
  c_len :: nat

fun log_lines :: "env \<Rightarrow> call list \<Rightarrow> rotated_log option \<Rightarrow> world \<Rightarrow> apr_status_t list \<times> rotated_log option \<times> world" where
  "log_lines E [] handle w = ([], handle, w)"
| "log_lines E (c # cs) handle w =
     (let (rv, handle, w) =
            ap_rotated_log_writer E (c_outcomes c) (c_request c) handle
              (c_strs c) (c_strl c) (c_nelts c) (c_len c) w;
          (rvs, handle, w) = log_lines E cs handle w
      in (rv # rvs, handle, w))"

text \<open>The window a call falls into, and the bytes it writes.\<close>

definition window :: "env \<Rightarrow> rotated_log \<Rightarrow> call \<Rightarrow> apr_time_t" where
  "window E rl c = ap_get_quantized_time E rl (request_time (c_request c))"

definition line :: "call \<Rightarrow> string" where
  "line c = take (c_len c) (copy_strs (c_strs c) (c_strl c) (c_nelts c))"

subsection \<open>More of the trace\<close>

text \<open>
  The lines written with success and the file they went to; the events on pools and
  files; the name \<^verbatim>\<open>ap_open_log\<close> synthesizes.
\<close>

definition written :: "event list \<Rightarrow> (apr_file_t option \<times> string) list" where
  "written tr =
     concat (map (\<lambda>e. case e of
                          File_write f s rv \<Rightarrow> if rv = APR_SUCCESS then [(f, s)] else []
                        | _ \<Rightarrow> []) tr)"

definition resource_events :: "event list \<Rightarrow> event list" where
  "resource_events tr =
     filter (\<lambda>e. case e of
                  Pool_create p rv \<Rightarrow> True
                | Pool_destroy p \<Rightarrow> True
                | File_open name p rv \<Rightarrow> True
                | File_close f rv \<Rightarrow> True
                | Log_error rv msg \<Rightarrow> True
                | _ \<Rightarrow> False) tr"

definition log_name :: "env \<Rightarrow> string \<Rightarrow> log_options \<Rightarrow> apr_time_t \<Rightarrow> string" where
  "log_name E base ls tm =
     (if enabled ls = RL_SUBSTITUTIONS
      then ap_pstrftime E base (apr_time_exp_gmt E (tm - offset ls))
      else base @ ''.'' @ dec_int (sint (apr_time_sec (tm - offset ls))))"

subsection \<open>Conditions on the environment\<close>

text \<open>
  \<open>keeps_file\<close>: the other threads never take a file away (they run the same code,
  which never assigns null to \<^verbatim>\<open>fd\<close> once it is set). \<open>threaded\<close>: the locks as
  initialisation sets them with more than one thread; \<open>locks_paired\<close>: either
  that, or no locks at all. \<open>alone\<close>: no other thread touches the log during the
  call. \<open>calm\<close>: moreover the locks, the pool and the write succeed.
\<close>

definition keeps_file :: "(rotated_log \<Rightarrow> rotated_log) \<Rightarrow> bool" where
  "keeps_file f = (\<forall>s. fd s \<noteq> None \<longrightarrow> fd (f s) \<noteq> None)"

definition threaded :: "rotated_log \<Rightarrow> bool" where
  "threaded rl = (read_lock rl = apr_anylock_readlock \<and> write_lock rl = apr_anylock_writelock)"

definition locks_paired :: "rotated_log \<Rightarrow> bool" where
  "locks_paired rl =
     (read_lock rl = apr_anylock_none \<and> write_lock rl = apr_anylock_none
      \<or> read_lock rl = apr_anylock_readlock \<and> write_lock rl = apr_anylock_writelock)"

definition alone :: "outcomes \<Rightarrow> bool" where
  "alone X = (others1 X = (\<lambda>s. s) \<and> others2 X = (\<lambda>s. s) \<and> others3 X = (\<lambda>s. s) \<and> others4 X = (\<lambda>s. s))"

definition calm :: "outcomes \<Rightarrow> bool" where
  "calm X =
     (alone X \<and> rdlock_rv X = APR_SUCCESS \<and> rdunlock_rv X = APR_SUCCESS
      \<and> wrlock_rv X = APR_SUCCESS \<and> wrunlock_rv X = APR_SUCCESS \<and> relock_rv X = APR_SUCCESS
      \<and> pool_create_rv X = APR_SUCCESS \<and> file_write_rv X = APR_SUCCESS
      \<and> unlock_rv X = APR_SUCCESS)"

subsection \<open>More concrete inputs\<close>

text \<open>
  Results of APR: everything succeeds and nobody interferes; some error numbers. A
  log with locks whose current window is 2023-11-14, a request on 2023-11-15, and
  another thread that runs \<^verbatim>\<open>ap_lock_log\<close> for such a request.
\<close>

definition all_ok :: outcomes where
  "all_ok =
     \<lparr>rdlock_rv = APR_SUCCESS, rdunlock_rv = APR_SUCCESS, wrlock_rv = APR_SUCCESS,
      dc_unlock_rv = APR_SUCCESS, dc_lock_rv = APR_SUCCESS, pool_create_rv = APR_SUCCESS,
      pc_unlock_rv = APR_SUCCESS, file_open_rv = APR_SUCCESS, file_close_rv = APR_SUCCESS,
      wrunlock_rv = APR_SUCCESS, relock_rv = APR_SUCCESS, file_write_rv = APR_SUCCESS,
      unlock_rv = APR_SUCCESS,
      others1 = (\<lambda>s. s), others2 = (\<lambda>s. s), others3 = (\<lambda>s. s), others4 = (\<lambda>s. s)\<rparr>"

definition no_space :: apr_status_t where
  "no_space = 28"

definition access_denied :: apr_status_t where
  "access_denied = 13"

definition io_error :: apr_status_t where
  "io_error = 5"

definition threaded_log :: rotated_log where
  "threaded_log =
     demo_log\<lparr>logtime := 1699920000000000,
       read_lock := apr_anylock_readlock, write_lock := apr_anylock_writelock\<rparr>"

definition closed_log :: rotated_log where
  "closed_log = threaded_log\<lparr>fd := None\<rparr>"

definition next_day :: request_rec where
  "next_day = \<lparr>request_time = 1700006400000000\<rparr>"

definition other_thread :: "rotated_log \<Rightarrow> rotated_log" where
  "other_thread s = fst (snd (ap_lock_log utc_env all_ok s next_day demo_world))"

text \<open>
  Initialisation in the parent process at 2023-11-14 21:56:40 UTC, the log and the
  world it leaves, and a log line for which opening a file would be denied.
\<close>

definition in_parent :: init_outcomes where
  "in_parent =
     \<lparr>open_piped_log = False, piped_log_write_fd = None, mpm_threads = 64,
      rwlock_create_rv = APR_SUCCESS, time_now = 1699999000000000,
      server_root_relative = Some ''/srv/httpd/logs/access_log'',
      init_pool_rv = APR_SUCCESS, init_open_rv = APR_SUCCESS, parent_pid = None,
      init_close_rv = APR_SUCCESS\<rparr>"

definition boot_world :: world where
  "boot_world = \<lparr>rw_held = Unlocked, live_pools = [], fresh = 0, trace = []\<rparr>"

definition parent_log :: rotated_log where
  "parent_log =
     \<lparr>pool = Some 0, fname = ''/srv/httpd/logs/access_log'', fd = None,
      logtime = 1699920000000000, read_lock = apr_anylock_readlock,
      write_lock = apr_anylock_writelock, st = make_log_options\<rparr>"

definition parent_world :: world where
  "parent_world =
     \<lparr>rw_held = Unlocked, live_pools = [0], fresh = 2,
      trace = [Pool_create 0 APR_SUCCESS,
               File_open ''/srv/httpd/logs/access_log.1699920000'' 0 APR_SUCCESS,
               File_close (Some 1) APR_SUCCESS]\<rparr>"

definition denied_line :: "apr_time_t \<Rightarrow> call" where
  "denied_line t =
     \<lparr>c_outcomes = all_ok\<lparr>file_open_rv := access_denied\<rparr>,
      c_request = \<lparr>request_time = t\<rparr>,
      c_strs = [''GET / HTTP/1.1'', '' 200''], c_strl = [14, 4], c_nelts = 2, c_len = 18\<rparr>"



text \<open>The files handed to \<^verbatim>\<open>apr_file_close\<close>, in order.\<close>

definition closes :: "event list \<Rightarrow> apr_file_t option list" where
  "closes tr = concat (map (\<lambda>e. case e of File_close f rv \<Rightarrow> [f] | _ \<Rightarrow> []) tr)"

subsection \<open>Threads sharing one rotated log\<close>

text \<open>
  Several threads of a threaded server run \<^verbatim>\<open>ap_rotated_log_writer\<close> on one
  \<^verbatim>\<open>rotated_log\<close>, with the reader-writer lock. A thread takes one step at a time:
  one lock operation, one test of the shared fields or one update of them under the
  exclusive lock. The program counter names the statement it executes next.

  \<^item> \<open>Start\<close>: the read lock, line 180. \<open>Check1\<close>: the test of line 185.
    \<open>Unlock1\<close>: line 188. \<open>Lock2\<close>: the write lock, line 193. \<open>Check2\<close>: the
    test of line 200.
  \<^item> \<open>DcUnlock\<close>, \<open>DcLock\<close>: lines 202 and 207 (the lock of line 207 is the write
    lock).
  \<^item> \<open>Rotate\<close>: lines 210 and 211. \<open>Open\<close>: lines 217 to 233, the new pool, the
    open, the close of the old file and the switch of pools. \<open>Unlock2\<close>: line 237.
    \<open>CheckFd\<close>: line 242. \<open>Lock3\<close>: the read lock, line 247.
  \<^item> \<open>Write\<close>: the write of line 287. \<open>Unlock3\<close>: \<^verbatim>\<open>ap_unlock_log\<close>, lines 291
    and 253. \<open>Done rv\<close>: the writer has returned \<open>rv\<close>. \<open>Crashed\<close>: the write was
    given a null file.
\<close>

datatype pc =
    Start | Check1 | Unlock1 | Lock2 | Check2 | DcUnlock | DcLock
  | Rotate | Open | Unlock2 | CheckFd | Lock3 | Write | Unlock3
  | Done apr_status_t | Crashed

text \<open>
  What the threads share: \<^verbatim>\<open>rl->logtime\<close> and \<^verbatim>\<open>rl->fd\<close>, and the lock, as the set of
  the threads that hold it shared and the thread that holds it exclusively. \<open>ofd\<close> is
  the local variable of each thread. The rest is the history: the files opened, each
  with the window it was opened for, the files handed to \<^verbatim>\<open>ap_close_log\<close>, and for
  every file the threads whose line it received, in order.
\<close>

record system =
  pcs :: "nat \<Rightarrow> pc"
  cur_logtime :: apr_time_t
  cur_fd :: "apr_file_t option"
  ofd :: "nat \<Rightarrow> apr_file_t option"
  readers :: "nat set"
  writer :: "nat option"
  opened :: "(apr_time_t \<times> apr_file_t) list"
  closed :: "apr_file_t option list"
  lines :: "apr_file_t \<Rightarrow> nat list"
  next_file :: apr_file_t

































section \<open>Verified properties\<close>

subsection \<open>Signed 64-bit arithmetic\<close>

lemma div_le_dividend_int:
  fixes a i :: int
  assumes "0 < i" "0 \<le> a"
  shows "a div i \<le> a"
proof -
  have "a div i \<le> a div 1" using assms by (intro zdiv_mono2) simp_all
  then show ?thesis by simp
qed

lemma sdiv_pos_nonneg:
  fixes a i :: int
  assumes "0 < i" "0 \<le> a"
  shows "a sdiv i = a div i"
  using assms by (simp add: signed_divide_int_def sgn_if)

lemma sdiv_pos_neg:
  fixes a i :: int
  assumes "0 < i" "a < 0"
  shows "a sdiv i = - ((- a) div i)"
  using assms by (simp add: signed_divide_int_def sgn_if)

lemma sdiv_mult_bounds_nonneg:
  fixes a i :: int
  assumes "0 < i" "0 \<le> a"
  shows "0 \<le> (a sdiv i) * i" "(a sdiv i) * i \<le> a"
proof -
  have e: "a sdiv i = a div i" using assms by (rule sdiv_pos_nonneg)
  have "0 \<le> a div i" using assms by (simp add: pos_imp_zdiv_nonneg_iff)
  then show "0 \<le> (a sdiv i) * i" using assms e by simp
  have "a div i * i + a mod i = a" by simp
  moreover have "0 \<le> a mod i" using assms by simp
  ultimately show "(a sdiv i) * i \<le> a" unfolding e by linarith
qed

lemma sdiv_mult_bounds_neg:
  fixes a i :: int
  assumes "0 < i" "a < 0"
  shows "a \<le> (a sdiv i) * i" "(a sdiv i) * i \<le> 0"
proof -
  have e: "a sdiv i = - ((- a) div i)" using assms by (rule sdiv_pos_neg)
  have n: "0 \<le> (- a) div i" using assms by (simp add: pos_imp_zdiv_nonneg_iff)
  then have "0 \<le> ((- a) div i) * i" using assms by simp
  then show "(a sdiv i) * i \<le> 0" using e by simp
  have "(- a) div i * i + (- a) mod i = - a" by simp
  moreover have "0 \<le> (- a) mod i" using assms by simp
  ultimately have "(- a) div i * i \<le> - a" by linarith
  then show "a \<le> (a sdiv i) * i" using e by simp
qed

lemma sdiv_bounds_pos:
  fixes a i :: int
  assumes "0 < i"
  shows "- \<bar>a\<bar> \<le> a sdiv i" "a sdiv i \<le> \<bar>a\<bar>"
  using sdiv_int_range [of a i] by simp_all

lemma sint_time_div:
  assumes "0 < sint b"
  shows "sint (time_div a b) = sint a sdiv sint b"
proof -
  have lo: "- (2 ^ 63) \<le> sint a" using sint_ge [of a] by simp
  have hi: "sint a < 2 ^ 63" using sint_lt [of a] by simp
  have "- (2 ^ 63) \<le> sint a sdiv sint b \<and> sint a sdiv sint b < 2 ^ 63"
  proof (cases "0 \<le> sint a")
    case True
    have "sint a sdiv sint b = sint a div sint b" using assms True by (rule sdiv_pos_nonneg)
    moreover have "0 \<le> sint a div sint b" using assms True by (simp add: pos_imp_zdiv_nonneg_iff)
    moreover have "sint a div sint b \<le> sint a" using assms True by (simp add: div_le_dividend_int)
    ultimately show ?thesis using hi by simp
  next
    case False
    then have neg: "sint a < 0" by simp
    have e: "sint a sdiv sint b = - ((- sint a) div sint b)" using assms neg by (rule sdiv_pos_neg)
    have "0 \<le> (- sint a) div sint b" using assms neg by (simp add: pos_imp_zdiv_nonneg_iff)
    moreover have "(- sint a) div sint b \<le> - sint a" using assms neg by (simp add: div_le_dividend_int)
    ultimately show ?thesis using lo e by simp
  qed
  then show ?thesis
    by (simp add: time_div_def sint_sbintrunc' signed_take_bit_int_eq_self)
qed

lemma sint_time_div_mult:
  assumes "0 < sint b"
  shows "sint (time_div a b * b) = (sint a sdiv sint b) * sint b"
proof -
  have lo: "- (2 ^ 63) \<le> sint a" using sint_ge [of a] by simp
  have hi: "sint a < 2 ^ 63" using sint_lt [of a] by simp
  have "- (2 ^ 63) \<le> (sint a sdiv sint b) * sint b \<and> (sint a sdiv sint b) * sint b < 2 ^ 63"
  proof (cases "0 \<le> sint a")
    case True
    show ?thesis
      using sdiv_mult_bounds_nonneg [OF assms True] hi by simp
  next
    case False
    then have neg: "sint a < 0" by simp
    show ?thesis
      using sdiv_mult_bounds_neg [OF assms neg] lo by simp
  qed
  then show ?thesis
    by (simp add: sint_word_mult sint_time_div [OF assms] signed_take_bit_int_eq_self)
qed

lemma sint_word_of_int_64:
  assumes "- (2 ^ 63) \<le> k" "k < 2 ^ 63"
  shows "sint (word_of_int k :: 64 word) = k"
  using assms by (simp add: sint_sbintrunc' signed_take_bit_int_eq_self)

lemma sint_localadj:
  fixes g :: apr_int32_t
  shows "sint (scast g * APR_USEC_PER_SEC :: apr_time_t) = sint g * 1000000"
proof -
  have lo: "- (2 ^ 31) \<le> sint g" using sint_ge [of g] by simp
  have hi: "sint g < 2 ^ 31" using sint_lt [of g] by simp
  have w: "(scast g * APR_USEC_PER_SEC :: apr_time_t) = word_of_int (sint g * 1000000)"
    by (simp only: APR_USEC_PER_SEC_def scast_eq of_int_mult of_int_numeral)
  have "- (2 ^ 63) \<le> sint g * 1000000" using lo by simp
  moreover have "sint g * 1000000 < 2 ^ 63" using hi by simp
  ultimately show ?thesis unfolding w by (rule sint_word_of_int_64)
qed

lemma word_of_int_sint_64:
  fixes a :: apr_time_t
  shows "word_of_int (sint a) = a"
  by simp

lemma sum_word_of_int:
  fixes a b c :: apr_time_t
  shows "a + b + c = word_of_int (sint a + sint b + sint c)"
  by (simp only: of_int_add word_of_int_sint_64)

lemma sint_adjusted:
  assumes "- (2 ^ 63) \<le> adjusted E rl tm" "adjusted E rl tm < 2 ^ 63"
  shows "sint (tm + offset (st rl) +
           (if localt (st rl) then scast (tm_gmtoff (apr_time_exp_lt E tm)) * APR_USEC_PER_SEC else 0))
         = adjusted E rl tm"
proof -
  let ?adj = "(if localt (st rl) then scast (tm_gmtoff (apr_time_exp_lt E tm)) * APR_USEC_PER_SEC else 0) :: apr_time_t"
  have a: "sint ?adj = local_adjustment E rl tm"
    by (simp add: local_adjustment_def sint_localadj)
  have "tm + offset (st rl) + ?adj = word_of_int (sint tm + sint (offset (st rl)) + sint ?adj)"
    by (rule sum_word_of_int)
  also have "\<dots> = word_of_int (adjusted E rl tm)"
    by (simp only: a adjusted_def)
  finally show ?thesis using assms by (simp only: sint_word_of_int_64)
qed

lemma quantized_time_sint:
  assumes "0 < sint (interval (st rl))"
      and "- (2 ^ 63) \<le> adjusted E rl tm" "adjusted E rl tm < 2 ^ 63"
  shows "sint (ap_get_quantized_time E rl tm)
         = (adjusted E rl tm sdiv sint (interval (st rl))) * sint (interval (st rl))"
  unfolding ap_get_quantized_time_def Let_def
  by (simp only: sint_time_div_mult [OF assms(1)] sint_adjusted [OF assms(2,3)])

subsection \<open>The quantized time\<close>

text \<open>
  Claim C4, as amended. Let \<open>adjusted\<close> be \<open>now + offset + localAdjustment\<close> as
  an integer. When it is representable in 64 bits and the interval is positive,
  \<^verbatim>\<open>ap_get_quantized_time\<close> returns \<open>adjusted / interval\<close> truncated towards zero,
  times the interval. The result is an exact multiple of the interval, also for a
  negative instant; it is \<open>floor (adjusted / interval) * interval\<close> when
  \<open>adjusted\<close> is not negative, and \<open>- floor (- adjusted / interval) * interval\<close>
  when it is.
\<close>

theorem ap_get_quantized_time_truncates:
  assumes "0 < sint (interval (st rl))"
      and "- (2 ^ 63) \<le> adjusted E rl now" and "adjusted E rl now < 2 ^ 63"
  shows "sint (ap_get_quantized_time E rl now)
           = (adjusted E rl now sdiv sint (interval (st rl))) * sint (interval (st rl))
       \<and> sint (interval (st rl)) dvd sint (ap_get_quantized_time E rl now)
       \<and> (0 \<le> adjusted E rl now \<longrightarrow>
            sint (ap_get_quantized_time E rl now) = computeWindowStart_spec E rl now)
       \<and> (adjusted E rl now < 0 \<longrightarrow>
            sint (ap_get_quantized_time E rl now)
              = - ((- adjusted E rl now div sint (interval (st rl))) * sint (interval (st rl))))"
proof -
  let ?i = "sint (interval (st rl))"
  let ?a = "adjusted E rl now"
  have q: "sint (ap_get_quantized_time E rl now) = (?a sdiv ?i) * ?i"
    using assms by (rule quantized_time_sint)
  have d: "?i dvd sint (ap_get_quantized_time E rl now)"
    unfolding q by simp
  have p: "0 \<le> ?a \<longrightarrow> sint (ap_get_quantized_time E rl now) = computeWindowStart_spec E rl now"
    unfolding q computeWindowStart_spec_def using assms(1) by (simp add: sdiv_pos_nonneg)
  have n: "?a < 0 \<longrightarrow> sint (ap_get_quantized_time E rl now) = - ((- ?a div ?i) * ?i)"
    unfolding q using assms(1) by (simp add: sdiv_pos_neg)
  show ?thesis using q d p n by blast
qed

text \<open>The theorem at 2023-11-14 22:13:20 UTC with the default interval of one day.\<close>

theorem ap_get_quantized_time_truncates_witness:
  "0 < sint (interval (st demo_log))
   \<and> - (2 ^ 63) \<le> adjusted utc_env demo_log 1700000000000000
   \<and> adjusted utc_env demo_log 1700000000000000 < 2 ^ 63
   \<and> sint (ap_get_quantized_time utc_env demo_log 1700000000000000) = 1699920000000000
   \<and> sint (interval (st demo_log)) dvd sint (ap_get_quantized_time utc_env demo_log 1700000000000000)"
proof -
  have i: "sint (interval (st demo_log)) = 86400000000"
    by (simp add: demo_log_def make_log_options_def INTERVAL_DEFAULT_def APR_USEC_PER_SEC_def)
  have a: "adjusted utc_env demo_log 1700000000000000 = 1700000000000000"
    by (simp add: adjusted_def local_adjustment_def demo_log_def make_log_options_def)
  have h1: "0 < sint (interval (st demo_log))" unfolding i by simp
  have h2: "- (2 ^ 63) \<le> adjusted utc_env demo_log 1700000000000000" unfolding a by simp
  have h3: "adjusted utc_env demo_log 1700000000000000 < 2 ^ 63" unfolding a by simp
  show ?thesis
    using ap_get_quantized_time_truncates [OF h1 h2 h3] h1 h2 h3
    by (simp add: i a computeWindowStart_spec_def)
qed

text \<open>
  Claim C4 as stated fails one microsecond before the epoch: the code returns 0, the
  floor formula gives minus one day.
\<close>

theorem computeWindowStart_floor_counterexample:
  "sint (ap_get_quantized_time utc_env demo_log (- 1)) = 0
   \<and> computeWindowStart_spec utc_env demo_log (- 1) = - 86400000000
   \<and> sint (ap_get_quantized_time utc_env demo_log (- 1))
       \<noteq> computeWindowStart_spec utc_env demo_log (- 1)"
  by (simp add: ap_get_quantized_time_def computeWindowStart_spec_def adjusted_def
      local_adjustment_def demo_log_def make_log_options_def INTERVAL_DEFAULT_def
      APR_USEC_PER_SEC_def time_div_def signed_divide_int_def)

subsection \<open>File names\<close>

lemma pstrftime_len_count:
  "pstrftime_len format len = len + 10 * count_list format (CHR ''%'')"
  by (induction format arbitrary: len) simp_all

lemma open_attempts_append:
  "open_attempts (xs @ ys) = open_attempts xs @ open_attempts ys"
  by (simp add: open_attempts_def)

lemma open_attempts_simps:
  "open_attempts [] = []"
  "open_attempts (File_open name p rv # es) = (name, rv) # open_attempts es"
  "open_attempts (Log_error rv s # es) = open_attempts es"
  by (simp_all add: open_attempts_def)

lemma sint_time_sub:
  fixes a b :: apr_time_t
  assumes "- (2 ^ 63) \<le> sint a - sint b" "sint a - sint b < 2 ^ 63"
  shows "sint (a - b) = sint a - sint b"
  using assms by (simp add: sint_word_diff signed_take_bit_int_eq_self)

lemma sint_usec_per_sec: "sint APR_USEC_PER_SEC = 1000000"
  by (simp add: APR_USEC_PER_SEC_def)

lemma sint_apr_time_sec: "sint (apr_time_sec t) = sint t sdiv 1000000"
  unfolding apr_time_sec_def
  using sint_time_div [of APR_USEC_PER_SEC t] by (simp add: sint_usec_per_sec)

lemma ap_open_log_attempts:
  "open_attempts (trace (snd (ap_open_log E rv p base ls tm w)))
     = open_attempts (trace w) @
       [(if enabled ls = RL_SUBSTITUTIONS
         then ap_pstrftime E base (apr_time_exp_gmt E (tm - offset ls))
         else base @ ''.'' @ dec_int (sint (apr_time_sec (tm - offset ls))), rv)]"
  by (simp add: ap_open_log_def apr_file_open_def log_event_def Let_def
      open_attempts_append open_attempts_simps)

lemma sdiv_eq_div_usec:
  fixes d :: int
  assumes "0 \<le> d \<or> 1000000 dvd d"
  shows "d sdiv 1000000 = d div 1000000"
proof (cases "0 \<le> d")
  case True
  then show ?thesis by (simp add: sdiv_pos_nonneg)
next
  case False
  with assms have "1000000 dvd d" by simp
  then show ?thesis by (simp add: signed_divide_int_eq_divide_int)
qed

text \<open>
  In suffix mode, when \<open>windowStart - offset\<close> does not overflow 64 bits, the name
  that is opened is the base, a dot and the decimal rendering of
  \<open>(windowStart - offset) / 1_000_000\<close>, the division being that of C
  (\<^verbatim>\<open>apr_time_sec\<close>). This is the floor whenever \<open>windowStart - offset\<close> is not
  negative or is a whole number of seconds.
\<close>

lemma suffix_name_truncates:
  assumes "enabled ls \<noteq> RL_SUBSTITUTIONS"
      and "- (2 ^ 63) \<le> sint tm - sint (offset ls)"
      and "sint tm - sint (offset ls) < 2 ^ 63"
  shows "open_attempts (trace (snd (ap_open_log E rv p base ls tm w)))
           = open_attempts (trace w) @
             [(base @ ''.'' @ dec_int ((sint tm - sint (offset ls)) sdiv 1000000), rv)]
       \<and> ((0 \<le> sint tm - sint (offset ls) \<or> 1000000 dvd (sint tm - sint (offset ls))) \<longrightarrow>
            open_attempts (trace (snd (ap_open_log E rv p base ls tm w)))
              = open_attempts (trace w) @
                [(formatName_suffix_spec base (sint tm) (sint (offset ls)), rv)])"
proof -
  let ?d = "sint tm - sint (offset ls)"
  have s: "sint (apr_time_sec (tm - offset ls)) = ?d sdiv 1000000"
    by (simp only: sint_apr_time_sec sint_time_sub [OF assms(2,3)])
  have a: "open_attempts (trace (snd (ap_open_log E rv p base ls tm w)))
           = open_attempts (trace w) @ [(base @ ''.'' @ dec_int (?d sdiv 1000000), rv)]"
    using assms(1) by (simp only: ap_open_log_attempts s if_False)
  show ?thesis using a by (simp add: formatName_suffix_spec_def sdiv_eq_div_usec)
qed

text \<open>
  The module works in whole seconds: the default interval is a day and the default
  offset is zero, \<^verbatim>\<open>set_interval\<close> stores a number of seconds and a number of
  minutes (as long as the products of lines 406 and 414 do not overflow), and the
  window start is then a multiple of the interval.
\<close>

lemma sint_mult_64:
  fixes a b :: apr_time_t
  assumes "- (2 ^ 63) \<le> sint a * sint b" "sint a * sint b < 2 ^ 63"
  shows "sint (a * b) = sint a * sint b"
  using assms by (simp add: sint_word_ariths signed_take_bit_int_eq_self)

lemma sint_seconds:
  fixes x :: apr_time_t
  assumes "- 9223372036854 \<le> sint x" "sint x \<le> 9223372036854"
  shows "sint (APR_USEC_PER_SEC * x) = 1000000 * sint x"
proof -
  have "sint (APR_USEC_PER_SEC * x) = sint APR_USEC_PER_SEC * sint x"
    using assms by (intro sint_mult_64) (simp_all add: sint_usec_per_sec)
  then show ?thesis by (simp add: sint_usec_per_sec)
qed

lemma sint_minutes:
  fixes x :: apr_time_t
  assumes "- 153722867280 \<le> sint x" "sint x \<le> 153722867280"
  shows "sint (APR_USEC_PER_SEC * 60 * x) = 60000000 * sint x"
proof -
  have c: "sint (APR_USEC_PER_SEC * 60 :: apr_time_t) = 60000000"
    by (simp add: APR_USEC_PER_SEC_def)
  have "sint (APR_USEC_PER_SEC * 60 * x) = sint (APR_USEC_PER_SEC * 60 :: apr_time_t) * sint x"
    using assms by (intro sint_mult_64) (simp_all add: c)
  then show ?thesis by (simp add: c)
qed

lemma sint_INTERVAL_MIN: "sint INTERVAL_MIN = 60000000"
  by (simp add: INTERVAL_MIN_def APR_USEC_PER_SEC_def)

lemma make_log_options_whole_seconds:
  "1000000 dvd sint (interval make_log_options) \<and> 1000000 dvd sint (offset make_log_options)"
  by (simp add: make_log_options_def INTERVAL_DEFAULT_def APR_USEC_PER_SEC_def)

lemma set_interval_whole_seconds:
  assumes "1000000 dvd sint (interval ls)" and "1000000 dvd sint (offset ls)"
      and "\<And>i. inte = Some i \<Longrightarrow> - 9223372036854 \<le> sint (atol E i) \<and> sint (atol E i) \<le> 9223372036854"
      and "\<And>f. offs = Some f \<Longrightarrow> - 153722867280 \<le> sint (atol E f) \<and> sint (atol E f) \<le> 153722867280"
  shows "1000000 dvd sint (interval (set_interval E ls inte offs))
       \<and> 1000000 dvd sint (offset (set_interval E ls inte offs))"
proof -
  have i: "1000000 dvd sint (interval (set_interval E ls inte offs))"
  proof (cases inte)
    case None
    with assms(1) show ?thesis
      by (cases offs) (simp_all add: set_interval_def)
  next
    case (Some i)
    have "sint (APR_USEC_PER_SEC * atol E i) = 1000000 * sint (atol E i)"
      using assms(3) [OF Some] by (intro sint_seconds) simp_all
    then have "1000000 dvd sint (APR_USEC_PER_SEC * atol E i)" by simp
    with Some show ?thesis
      by (cases offs) (simp_all add: set_interval_def Let_def sint_INTERVAL_MIN)
  qed
  have f: "1000000 dvd sint (offset (set_interval E ls inte offs))"
  proof (cases offs)
    case None
    with assms(2) show ?thesis
      by (cases inte) (simp_all add: set_interval_def Let_def)
  next
    case (Some f)
    have "sint (APR_USEC_PER_SEC * 60 * atol E f) = 60000000 * sint (atol E f)"
      using assms(4) [OF Some] by (intro sint_minutes) simp_all
    then have "1000000 dvd sint (APR_USEC_PER_SEC * 60 * atol E f)" by simp
    with Some show ?thesis
      by (cases inte) (simp_all add: set_interval_def Let_def)
  qed
  show ?thesis using i f by simp
qed

lemma quantized_time_whole_seconds:
  assumes "0 < sint (interval (st rl))" and "1000000 dvd sint (interval (st rl))"
      and "- (2 ^ 63) \<le> adjusted E rl now" and "adjusted E rl now < 2 ^ 63"
  shows "1000000 dvd sint (ap_get_quantized_time E rl now)"
  unfolding quantized_time_sint [OF assms(1,3,4)] using assms(2) by simp




text \<open>
  Both callers pass \<^verbatim>\<open>ap_open_log\<close> a time that \<^verbatim>\<open>ap_get_quantized_time\<close> has
  returned (lines 223 and 374).
\<close>

lemma rotation_name_is_floor:
  assumes "enabled (st rl) \<noteq> RL_SUBSTITUTIONS"
      and "0 < sint (interval (st rl))"
      and "1000000 dvd sint (interval (st rl))" and "1000000 dvd sint (offset (st rl))"
      and "- (2 ^ 63) \<le> adjusted E rl now" and "adjusted E rl now < 2 ^ 63"
      and "- (2 ^ 63) \<le> sint (ap_get_quantized_time E rl now) - sint (offset (st rl))"
      and "sint (ap_get_quantized_time E rl now) - sint (offset (st rl)) < 2 ^ 63"
  shows "open_attempts (trace (snd (ap_open_log E rv p base (st rl)
            (ap_get_quantized_time E rl now) w)))
           = open_attempts (trace w) @
             [(formatName_suffix_spec base (sint (ap_get_quantized_time E rl now))
                 (sint (offset (st rl))), rv)]"
proof -
  have "1000000 dvd sint (ap_get_quantized_time E rl now)"
    using assms(2,3,5,6) by (rule quantized_time_whole_seconds)
  then have "1000000 dvd sint (ap_get_quantized_time E rl now) - sint (offset (st rl))"
    using assms(4) by (rule dvd_diff)
  then show ?thesis
    using suffix_name_truncates [OF assms(1,7,8), of E rv p base w] by blast
qed

lemma ap_pstrftime_fits:
  assumes "length (strftime_full E base tm) < length base + 1 + 10 * count_list base (CHR ''%'')"
  shows "ap_pstrftime E base tm = strftime_full E base tm"
  using assms by (simp add: ap_pstrftime_def apr_strftime_def pstrftime_len_count)

text \<open>
  Claim C8, as amended. In substitution mode, whenever the expansion and its
  terminating null byte fit the buffer of \<^verbatim>\<open>ap_pstrftime\<close>, the name that is opened
  is the \<^verbatim>\<open>strftime\<close> expansion of the base against \<open>windowStart - offset\<close>
  (64-bit subtraction) broken down in UTC. The local-time flag plays no part: the
  local adjustment that went into the window start is not undone.
\<close>

theorem substitution_name_expands_log_time:
  assumes "enabled ls = RL_SUBSTITUTIONS"
      and "length (strftime_full E base (apr_time_exp_gmt E (tm - offset ls)))
             < length base + 1 + 10 * count_list base (CHR ''%'')"
  shows "open_attempts (trace (snd (ap_open_log E rv p base ls tm w)))
           = open_attempts (trace w) @
             [(strftime_full E base (apr_time_exp_gmt E (tm - offset ls)), rv)]
       \<and> ap_open_log E rv p base (ls\<lparr>localt := b\<rparr>) tm w = ap_open_log E rv p base ls tm w"
proof -
  have "open_attempts (trace (snd (ap_open_log E rv p base ls tm w)))
           = open_attempts (trace w) @
             [(strftime_full E base (apr_time_exp_gmt E (tm - offset ls)), rv)]"
    using assms by (simp add: ap_open_log_attempts ap_pstrftime_fits)
  moreover have "ap_open_log E rv p base (ls\<lparr>localt := b\<rparr>) tm w = ap_open_log E rv p base ls tm w"
    by (simp add: ap_open_log_def)
  ultimately show ?thesis by simp
qed

text \<open>
  An hourly pattern with an offset of 30 minutes, in local-time mode, for the window
  start 2023-11-14 01:00:00.
\<close>

theorem substitution_name_expands_log_time_witness:
  "enabled hourly_pattern = RL_SUBSTITUTIONS
   \<and> length (strftime_full utc_env ''logs/access_%Y-%m-%d_%H%M.log''
         (apr_time_exp_gmt utc_env (1699923600000000 - offset hourly_pattern)))
       < length ''logs/access_%Y-%m-%d_%H%M.log'' + 1
         + 10 * count_list ''logs/access_%Y-%m-%d_%H%M.log'' (CHR ''%'')
   \<and> open_attempts (trace (snd (ap_open_log utc_env APR_SUCCESS 2 ''logs/access_%Y-%m-%d_%H%M.log''
          hourly_pattern 1699923600000000 demo_world)))
       = [(''logs/access_2023-11-14_0030.log'', APR_SUCCESS)]"
proof -
  have h1: "enabled hourly_pattern = RL_SUBSTITUTIONS"
    by code_simp
  have h2: "length (strftime_full utc_env ''logs/access_%Y-%m-%d_%H%M.log''
         (apr_time_exp_gmt utc_env (1699923600000000 - offset hourly_pattern)))
       < length ''logs/access_%Y-%m-%d_%H%M.log'' + 1
         + 10 * count_list ''logs/access_%Y-%m-%d_%H%M.log'' (CHR ''%'')"
    by code_simp
  have e: "open_attempts (trace demo_world) @
             [(strftime_full utc_env ''logs/access_%Y-%m-%d_%H%M.log''
                 (apr_time_exp_gmt utc_env (1699923600000000 - offset hourly_pattern)), APR_SUCCESS)]
           = [(''logs/access_2023-11-14_0030.log'', APR_SUCCESS)]"
    by code_simp
  show ?thesis
    using substitution_name_expands_log_time [OF h1 h2, of APR_SUCCESS 2 demo_world] h1 h2
    by (simp only: e simp_thms)
qed

text \<open>
  Claim C8 as stated fails for a pattern with \<^verbatim>\<open>%c\<close>: the expansion has 40
  characters, the buffer 29 bytes, and the file that is opened is not named by the
  expansion.
\<close>

theorem substitution_name_overflow_counterexample:
  "open_attempts (trace (snd (ap_open_log utc_env APR_SUCCESS 2 ''logs/access_%c.log''
       (make_log_options\<lparr>enabled := RL_SUBSTITUTIONS\<rparr>) 86400000000 demo_world)))
     = [(''logs/access_Fri Jan  2 00:00'', APR_SUCCESS)]
   \<and> strftime_full utc_env ''logs/access_%c.log''
         (apr_time_exp_gmt utc_env (86400000000 - offset make_log_options))
     = ''logs/access_Fri Jan  2 00:00:00 1970.log''"
  by code_simp

text \<open>
  Claim C9, as amended. The buffer of \<^verbatim>\<open>ap_pstrftime\<close> has \<open>length base + 1\<close> bytes
  plus 10 for every \<^verbatim>\<open>%\<close> in the base; whenever the expansion and its terminating
  null byte fit, the name produced is exactly the expansion.
\<close>

theorem pstrftime_buffer_bound:
  "pstrftime_len base (length base + 1) = length base + 1 + 10 * count_list base (CHR ''%'')
   \<and> (length (strftime_full E base tm) < length base + 1 + 10 * count_list base (CHR ''%'') \<longrightarrow>
        ap_pstrftime E base tm = strftime_full E base tm)"
  by (simp add: pstrftime_len_count ap_pstrftime_fits)

text \<open>Three markers: 41 bytes for an expansion of 12 characters.\<close>

theorem pstrftime_buffer_bound_witness:
  "pstrftime_len ''%Y%m%d.log'' (length ''%Y%m%d.log'' + 1) = 41
   \<and> length (strftime_full utc_env ''%Y%m%d.log'' (utc_exp 1699920000000000)) < 41
   \<and> ap_pstrftime utc_env ''%Y%m%d.log'' (utc_exp 1699920000000000) = ''20231114.log''"
proof -
  have e: "strftime_full utc_env ''%Y%m%d.log'' (utc_exp 1699920000000000) = ''20231114.log''"
    by code_simp
  show ?thesis
    using pstrftime_buffer_bound [of "''%Y%m%d.log''" utc_env "utc_exp 1699920000000000"]
    by (simp add: e)
qed

text \<open>
  Claim C9 as stated fails for the pattern \<^verbatim>\<open>%c\<close>: the expansion has 24 characters,
  the buffer 13 bytes; \<^verbatim>\<open>ap_open_log\<close> returns an open file and its only event is
  the opening of a file under the name left in the buffer. No error is reported.
\<close>

theorem pstrftime_overflow_counterexample:
  "pstrftime_len ''%c'' (length ''%c'' + 1) = 13
   \<and> length (strftime_full utc_env ''%c'' (apr_time_exp_gmt utc_env 0)) = 24
   \<and> ap_open_log utc_env APR_SUCCESS 2 ''%c'' (make_log_options\<lparr>enabled := RL_SUBSTITUTIONS\<rparr>) 0
        demo_world
     = (Some 2, demo_world\<lparr>fresh := 3, trace := [File_open ''Thu Jan  1 0'' 2 APR_SUCCESS]\<rparr>)"
  by code_simp

subsection \<open>The lock protocol\<close>

text \<open>\<^verbatim>\<open>ap_lock_log\<close> is the first lock and check followed by the parts defined above.\<close>

lemma ap_lock_log_parts:
  "ap_lock_log E X rl r w =
     (let logt = ap_get_quantized_time E rl (request_time r);
          w = log_event (Log_debug logt (logtime rl)) w;
          (rv, w) = APR_ANYLOCK_LOCK (read_lock rl) (rdlock_rv X) w
      in if rv \<noteq> APR_SUCCESS then (rv, rl, w)
         else if logt = logtime rl \<and> fd rl \<noteq> None then (APR_SUCCESS, rl, w)
         else slow_path E X rl logt w)"
  unfolding ap_lock_log_def slow_path_def double_check_def rotate_def replace_file_def
    relock_shared_def
  by (simp only: Let_def split_def)

lemma interfere_fields:
  "logtime (interfere f rl) = logtime (f rl)"
  "fd (interfere f rl) = fd (f rl)"
  "pool (interfere f rl) = pool (f rl)"
  "read_lock (interfere f rl) = read_lock rl"
  "write_lock (interfere f rl) = write_lock rl"
  "st (interfere f rl) = st rl"
  "fname (interfere f rl) = fname rl"
  by (simp_all add: interfere_def)

lemma keeps_file_interfere:
  "keeps_file f \<Longrightarrow> fd s \<noteq> None \<Longrightarrow> fd (interfere f s) \<noteq> None"
  by (simp add: keeps_file_def interfere_def)

lemma relock_shared_file:
  assumes k: "keeps_file (others4 X)" and ok: "fst (relock_shared X rl w) = APR_SUCCESS"
  shows "fd (fst (snd (relock_shared X rl w))) \<noteq> None"
proof (cases "fst (APR_ANYLOCK_UNLOCK (write_lock rl) (wrunlock_rv X) w) = APR_SUCCESS
              \<and> fd (interfere (others3 X) rl) \<noteq> None")
  case True
  then have "fd (interfere (others4 X) (interfere (others3 X) rl)) \<noteq> None"
    using keeps_file_interfere [OF k] by simp
  with True show ?thesis
    by (simp add: relock_shared_def Let_def split_def)
next
  case False
  with ok show ?thesis
    by (auto simp add: relock_shared_def Let_def split_def APR_ENOENT_def APR_SUCCESS_def
        split: if_splits)
qed

lemma double_check_file:
  assumes k: "keeps_file (others2 X)" and f: "fd rl \<noteq> None"
  shows "fd (fst (snd (double_check X rl w))) \<noteq> None"
proof -
  have "fd (interfere (others2 X) rl) \<noteq> None"
    using k f by (rule keeps_file_interfere)
  with f show ?thesis
    by (simp add: double_check_def Let_def split_def)
qed

lemma rotate_file:
  assumes "keeps_file (others4 X)" and "fst (rotate E X rl logt w) = APR_SUCCESS"
  shows "fd (fst (snd (rotate E X rl logt w))) \<noteq> None"
  using assms
  by (auto simp add: rotate_def Let_def split_def dest: relock_shared_file split: if_splits)

lemma slow_path_file:
  assumes "keeps_file (others2 X)" "keeps_file (others4 X)"
      and "fst (slow_path E X rl logt w) = APR_SUCCESS"
  shows "fd (fst (snd (slow_path E X rl logt w))) \<noteq> None"
proof (cases "logt = logtime (interfere (others1 X) rl) \<and> fd (interfere (others1 X) rl) \<noteq> None")
  case True
  then have "fd (fst (snd (double_check X (interfere (others1 X) rl) w'))) \<noteq> None" for w'
    using double_check_file [OF assms(1)] by simp
  with True assms(3) show ?thesis
    by (simp add: slow_path_def Let_def split_def split: if_splits)
next
  case False
  with assms show ?thesis
    by (auto simp add: slow_path_def Let_def split_def
        dest: rotate_file split: if_splits)
qed

lemma ap_lock_log_file:
  assumes "keeps_file (others2 X)" "keeps_file (others4 X)"
      and "fst (ap_lock_log E X rl r w) = APR_SUCCESS"
  shows "fd (fst (snd (ap_lock_log E X rl r w))) \<noteq> None"
  using assms
  by (auto simp add: ap_lock_log_parts Let_def split_def
      dest: slow_path_file split: if_splits)

lemma lock_ok:
  "APR_ANYLOCK_LOCK apr_anylock_readlock APR_SUCCESS w
     = (APR_SUCCESS, w\<lparr>rw_held := Shared, trace := trace w @ [Rdlock APR_SUCCESS]\<rparr>)"
  "APR_ANYLOCK_LOCK apr_anylock_writelock APR_SUCCESS w
     = (APR_SUCCESS, w\<lparr>rw_held := Exclusive, trace := trace w @ [Wrlock APR_SUCCESS]\<rparr>)"
  "APR_ANYLOCK_UNLOCK apr_anylock_readlock APR_SUCCESS w
     = (APR_SUCCESS, w\<lparr>rw_held := Unlocked, trace := trace w @ [Unlock APR_SUCCESS]\<rparr>)"
  "APR_ANYLOCK_UNLOCK apr_anylock_writelock APR_SUCCESS w
     = (APR_SUCCESS, w\<lparr>rw_held := Unlocked, trace := trace w @ [Unlock APR_SUCCESS]\<rparr>)"
  by (simp_all add: APR_ANYLOCK_LOCK_def APR_ANYLOCK_UNLOCK_def log_event_def)

text \<open>
  Claim C1. When the second check under the write lock finds the log already rotated,
  \<^verbatim>\<open>ap_lock_log\<close> releases the write lock and then takes the write lock again
  (source line 207), not the read lock its comment announces: it returns success
  holding the lock in exclusive mode.
\<close>

theorem double_check_returns_exclusive:
  assumes "threaded rl"
      and "rdlock_rv X = APR_SUCCESS" and "rdunlock_rv X = APR_SUCCESS"
      and "wrlock_rv X = APR_SUCCESS" and "dc_unlock_rv X = APR_SUCCESS"
      and "dc_lock_rv X = APR_SUCCESS"
      and "\<not> (ap_get_quantized_time E rl (request_time r) = logtime rl \<and> fd rl \<noteq> None)"
      and "logtime (others1 X rl) = ap_get_quantized_time E rl (request_time r)"
      and "fd (others1 X rl) \<noteq> None"
  shows "fst (ap_lock_log E X rl r w) = APR_SUCCESS
       \<and> rw_held (snd (snd (ap_lock_log E X rl r w))) = Exclusive
       \<and> trace (snd (snd (ap_lock_log E X rl r w)))
           = trace w @ [Log_debug (ap_get_quantized_time E rl (request_time r)) (logtime rl),
                        Rdlock APR_SUCCESS, Unlock APR_SUCCESS, Wrlock APR_SUCCESS,
                        Unlock APR_SUCCESS, Wrlock APR_SUCCESS]"
  using assms
  by (auto simp add: ap_lock_log_parts slow_path_def double_check_def threaded_def Let_def
      lock_ok interfere_fields log_event_def)

text \<open>
  Two threads, one log whose window is 2023-11-14, a request on 2023-11-15: the other
  thread rotates between this thread's read unlock and its write lock.
\<close>

theorem double_check_returns_exclusive_witness:
  "threaded threaded_log
   \<and> \<not> (ap_get_quantized_time utc_env threaded_log (request_time next_day) = logtime threaded_log
          \<and> fd threaded_log \<noteq> None)
   \<and> logtime (other_thread threaded_log)
       = ap_get_quantized_time utc_env threaded_log (request_time next_day)
   \<and> fd (other_thread threaded_log) \<noteq> None
   \<and> fst (ap_lock_log utc_env (all_ok\<lparr>others1 := other_thread\<rparr>) threaded_log next_day demo_world)
       = APR_SUCCESS
   \<and> rw_held (snd (snd (ap_lock_log utc_env (all_ok\<lparr>others1 := other_thread\<rparr>) threaded_log
         next_day demo_world))) = Exclusive"
proof -
  let ?X = "all_ok\<lparr>others1 := other_thread\<rparr>"
  have h1: "threaded threaded_log" by code_simp
  have h2: "rdlock_rv ?X = APR_SUCCESS" "rdunlock_rv ?X = APR_SUCCESS"
    "wrlock_rv ?X = APR_SUCCESS" "dc_unlock_rv ?X = APR_SUCCESS" "dc_lock_rv ?X = APR_SUCCESS"
    by (simp_all add: all_ok_def)
  have h3: "\<not> (ap_get_quantized_time utc_env threaded_log (request_time next_day) = logtime threaded_log
          \<and> fd threaded_log \<noteq> None)"
    by code_simp
  have h4: "logtime (others1 ?X threaded_log)
       = ap_get_quantized_time utc_env threaded_log (request_time next_day)"
    by code_simp
  have h5: "fd (others1 ?X threaded_log) \<noteq> None"
    by code_simp
  have o: "others1 ?X = other_thread" by simp
  show ?thesis
    using double_check_returns_exclusive [OF h1 h2 h3 h4 h5, of demo_world] h1 h3 h4 h5
    by (simp only: o simp_thms)
qed

text \<open>
  Claim C2. When \<^verbatim>\<open>ap_lock_log\<close> has succeeded and writing the buffer fails,
  \<^verbatim>\<open>ap_rotated_log_writer\<close> returns the error of the write at once (source line 288):
  the last event is the write, and the lock is still held as \<^verbatim>\<open>ap_lock_log\<close> left
  it.
\<close>

theorem writer_returns_locked_on_write_failure:
  assumes "enabled (st rl) \<noteq> RL_DISABLED"
      and "fst (ap_lock_log E X rl r w) = APR_SUCCESS"
      and "file_write_rv X \<noteq> APR_SUCCESS"
  shows "fst (ap_rotated_log_writer E X r (Some rl) strs strl nelts len w) = file_write_rv X
       \<and> trace (snd (snd (ap_rotated_log_writer E X r (Some rl) strs strl nelts len w)))
           = trace (snd (snd (ap_lock_log E X rl r w))) @
             [File_write (fd (fst (snd (ap_lock_log E X rl r w))))
                (take len (copy_strs strs strl nelts)) (file_write_rv X)]
       \<and> rw_held (snd (snd (ap_rotated_log_writer E X r (Some rl) strs strl nelts len w)))
           = rw_held (snd (snd (ap_lock_log E X rl r w)))"
  using assms
  by (simp add: ap_rotated_log_writer_def Let_def split_def apr_file_write_def log_event_def)

text \<open>A write that fails for lack of space, on the fast path: the read lock stays held.\<close>

theorem writer_returns_locked_on_write_failure_witness:
  "enabled (st threaded_log) \<noteq> RL_DISABLED
   \<and> fst (ap_lock_log utc_env (all_ok\<lparr>file_write_rv := no_space\<rparr>) threaded_log
          \<lparr>request_time = 1699999999000000\<rparr> demo_world) = APR_SUCCESS
   \<and> file_write_rv (all_ok\<lparr>file_write_rv := no_space\<rparr>) \<noteq> APR_SUCCESS
   \<and> fst (ap_rotated_log_writer utc_env (all_ok\<lparr>file_write_rv := no_space\<rparr>)
          \<lparr>request_time = 1699999999000000\<rparr> (Some threaded_log)
          [''GET / HTTP/1.1'', '' 200''] [14, 4] 2 18 demo_world) = no_space
   \<and> rw_held (snd (snd (ap_rotated_log_writer utc_env (all_ok\<lparr>file_write_rv := no_space\<rparr>)
          \<lparr>request_time = 1699999999000000\<rparr> (Some threaded_log)
          [''GET / HTTP/1.1'', '' 200''] [14, 4] 2 18 demo_world))) = Shared"
proof -
  let ?X = "all_ok\<lparr>file_write_rv := no_space\<rparr>"
  let ?r = "\<lparr>request_time = 1699999999000000\<rparr>"
  have h1: "enabled (st threaded_log) \<noteq> RL_DISABLED" by code_simp
  have h2: "fst (ap_lock_log utc_env ?X threaded_log ?r demo_world) = APR_SUCCESS" by code_simp
  have h3: "file_write_rv ?X \<noteq> APR_SUCCESS" by code_simp
  have v: "file_write_rv ?X = no_space" by simp
  have l: "rw_held (snd (snd (ap_lock_log utc_env ?X threaded_log ?r demo_world))) = Shared"
    by code_simp
  show ?thesis
    using writer_returns_locked_on_write_failure [OF h1 h2 h3,
        where strs = "[''GET / HTTP/1.1'', '' 200'']" and strl = "[14, 4]"
          and nelts = 2 and len = 18] h1 h2 h3
    by (simp only: v l simp_thms)
qed

subsection \<open>Rotation\<close>

lemma interfere_id: "interfere (\<lambda>s. s) rl = rl"
  by (simp add: interfere_def)

lemma ap_open_log_ok:
  "ap_open_log E APR_SUCCESS p base ls tm w
     = (Some (fresh w),
        w\<lparr>fresh := Suc (fresh w),
          trace := trace w @ [File_open (log_name E base ls tm) p APR_SUCCESS]\<rparr>)"
  by (simp add: ap_open_log_def log_name_def apr_file_open_def log_event_def Let_def)

lemma ap_open_log_failed:
  "rv \<noteq> APR_SUCCESS \<Longrightarrow>
   ap_open_log E rv p base ls tm w
     = (None,
        w\<lparr>trace := trace w @
            [File_open (log_name E base ls tm) p rv,
             Log_error rv (''could not open transfer log file '' @ log_name E base ls tm @ ''.'')]\<rparr>)"
  by (simp add: ap_open_log_def log_name_def apr_file_open_def log_event_def Let_def)

lemma ap_close_log_trace:
  "ap_close_log rv f w
     = (rv, w\<lparr>trace := trace w @ File_close f rv #
               (if rv = APR_SUCCESS then [] else [Log_error rv ''error closing transfer log file.''])\<rparr>)"
  by (simp add: ap_close_log_def apr_file_close_def log_event_def)

lemma apr_pool_create_ok:
  "apr_pool_create APR_SUCCESS w
     = (APR_SUCCESS, fresh w,
        w\<lparr>fresh := Suc (fresh w), live_pools := fresh w # live_pools w,
          trace := trace w @ [Pool_create (fresh w) APR_SUCCESS]\<rparr>)"
  by (simp add: apr_pool_create_def log_event_def Let_def)

lemma resource_events_append:
  "resource_events (xs @ ys) = resource_events xs @ resource_events ys"
  by (simp add: resource_events_def)

lemma resource_events_simps:
  "resource_events [] = []"
  "resource_events (Log_debug a b # es) = resource_events es"
  "resource_events (Rdlock rv # es) = resource_events es"
  "resource_events (Wrlock rv # es) = resource_events es"
  "resource_events (Unlock rv # es) = resource_events es"
  "resource_events (File_write f s rv # es) = resource_events es"
  "resource_events (Pool_create p rv # es) = Pool_create p rv # resource_events es"
  "resource_events (Pool_destroy q # es) = Pool_destroy q # resource_events es"
  "resource_events (File_open n p rv # es) = File_open n p rv # resource_events es"
  "resource_events (File_close f rv # es) = File_close f rv # resource_events es"
  "resource_events (Log_error rv m # es) = Log_error rv m # resource_events es"
  by (simp_all add: resource_events_def)

lemma lock_resource_events:
  "resource_events (trace (snd (APR_ANYLOCK_LOCK l rv w))) = resource_events (trace w)"
  "resource_events (trace (snd (APR_ANYLOCK_UNLOCK l rv w))) = resource_events (trace w)"
  by (simp_all add: APR_ANYLOCK_LOCK_def APR_ANYLOCK_UNLOCK_def log_event_def
      resource_events_append resource_events_simps split: apr_anylock_type.splits)

lemma lock_frame:
  "live_pools (snd (APR_ANYLOCK_LOCK l rv w)) = live_pools w"
  "live_pools (snd (APR_ANYLOCK_UNLOCK l rv w)) = live_pools w"
  "fresh (snd (APR_ANYLOCK_LOCK l rv w)) = fresh w"
  "fresh (snd (APR_ANYLOCK_UNLOCK l rv w)) = fresh w"
  by (simp_all add: APR_ANYLOCK_LOCK_def APR_ANYLOCK_UNLOCK_def log_event_def
      split: apr_anylock_type.splits)

lemma lock_paired_rv:
  "fst (APR_ANYLOCK_LOCK l APR_SUCCESS w) = APR_SUCCESS"
  "fst (APR_ANYLOCK_UNLOCK l APR_SUCCESS w) = APR_SUCCESS"
  by (simp_all add: APR_ANYLOCK_LOCK_def APR_ANYLOCK_UNLOCK_def split: apr_anylock_type.splits)

lemma apr_pool_create_parts:
  "fst (apr_pool_create rv w) = rv"
  "fst (snd (apr_pool_create rv w)) = fresh w"
  by (simp_all add: apr_pool_create_def Let_def)

text \<open>
  Claim C6. A rotation that retires a file, with no interference and with the locks, the
  new pool and the new file all succeeding: the pool is created, the new file is opened
  in it, then the old file is closed and the old pool destroyed, in this order. A
  failure to close is logged and changes nothing else. Afterwards the new file and the
  new pool are the current ones, and the old pool is no longer live.
\<close>

theorem rotation_replaces_then_releases:
  assumes "alone X"
      and "rdlock_rv X = APR_SUCCESS" and "rdunlock_rv X = APR_SUCCESS"
      and "wrlock_rv X = APR_SUCCESS" and "wrunlock_rv X = APR_SUCCESS"
      and "relock_rv X = APR_SUCCESS"
      and "pool_create_rv X = APR_SUCCESS" and "file_open_rv X = APR_SUCCESS"
      and "fd rl = Some old" and "pool rl = Some oldpool" and "oldpool < fresh w"
      and "ap_get_quantized_time E rl (request_time r) \<noteq> logtime rl"
  shows "fst (ap_lock_log E X rl r w) = APR_SUCCESS
       \<and> fst (snd (ap_lock_log E X rl r w))
           = rl\<lparr>logtime := ap_get_quantized_time E rl (request_time r),
                fd := Some (Suc (fresh w)), pool := Some (fresh w)\<rparr>
       \<and> resource_events (trace (snd (snd (ap_lock_log E X rl r w))))
           = resource_events (trace w) @
             [Pool_create (fresh w) APR_SUCCESS,
              File_open (log_name E (fname rl) (st rl) (ap_get_quantized_time E rl (request_time r)))
                (fresh w) APR_SUCCESS,
              File_close (Some old) (file_close_rv X)] @
             (if file_close_rv X = APR_SUCCESS then []
              else [Log_error (file_close_rv X) ''error closing transfer log file.'']) @
             [Pool_destroy (Some oldpool)]
       \<and> live_pools (snd (snd (ap_lock_log E X rl r w)))
           = fresh w # removeAll oldpool (live_pools w)"
proof -
  let ?logt = "ap_get_quantized_time E rl (request_time r)"
  let ?w1 = "snd (APR_ANYLOCK_LOCK (read_lock rl) APR_SUCCESS (log_event (Log_debug ?logt (logtime rl)) w))"
  let ?w2 = "snd (APR_ANYLOCK_UNLOCK (read_lock rl) APR_SUCCESS ?w1)"
  let ?w3 = "snd (APR_ANYLOCK_LOCK (write_lock rl) APR_SUCCESS ?w2)"
  let ?rl' = "rl\<lparr>logtime := ?logt, fd := Some (Suc (fresh w)), pool := Some (fresh w)\<rparr>"
  let ?R = "replace_file E X (rl\<lparr>logtime := ?logt\<rparr>) (Some old) (fresh w) ?logt
              (snd (snd (apr_pool_create APR_SUCCESS ?w3)))"
  have fr: "fresh ?w3 = fresh w"
    by (simp add: lock_frame log_event_def)
  have lp: "live_pools ?w3 = live_pools w"
    by (simp add: lock_frame log_event_def)
  have re: "resource_events (trace ?w3) = resource_events (trace w)"
    by (simp add: lock_resource_events log_event_def resource_events_append resource_events_simps)
  have r1: "fst ?R = ?rl'"
    using assms(8) fr
    by (simp add: replace_file_def apr_pool_create_ok ap_open_log_ok ap_close_log_trace
        apr_pool_destroy_def log_event_def Let_def)
  have r2: "trace (snd ?R) = trace ?w3 @
             [Pool_create (fresh w) APR_SUCCESS,
              File_open (log_name E (fname rl) (st rl) ?logt) (fresh w) APR_SUCCESS,
              File_close (Some old) (file_close_rv X)] @
             (if file_close_rv X = APR_SUCCESS then []
              else [Log_error (file_close_rv X) ''error closing transfer log file.'']) @
             [Pool_destroy (Some oldpool)]"
    using assms(8,10) fr
    by (simp add: replace_file_def apr_pool_create_ok ap_open_log_ok ap_close_log_trace
        apr_pool_destroy_def log_event_def Let_def)
  have r3: "live_pools (snd ?R) = fresh w # removeAll oldpool (live_pools w)"
    using assms(8,10,11) fr lp
    by (simp add: replace_file_def apr_pool_create_ok ap_open_log_ok ap_close_log_trace
        apr_pool_destroy_def log_event_def Let_def)
  have rs: "relock_shared X ?rl' w'
      = (APR_SUCCESS, ?rl', snd (APR_ANYLOCK_LOCK (read_lock rl) APR_SUCCESS
            (snd (APR_ANYLOCK_UNLOCK (write_lock rl) APR_SUCCESS w'))))" for w'
    using assms(1,5,6)
    by (simp add: relock_shared_def alone_def interfere_id lock_paired_rv Let_def split_def)
  have all: "ap_lock_log E X rl r w
      = (APR_SUCCESS, ?rl', snd (APR_ANYLOCK_LOCK (read_lock rl) APR_SUCCESS
            (snd (APR_ANYLOCK_UNLOCK (write_lock rl) APR_SUCCESS (snd ?R)))))"
    using assms(1-4,7,9,12) r1 rs [of "snd ?R"] fr
    by (simp add: ap_lock_log_parts slow_path_def rotate_def alone_def interfere_id
        lock_paired_rv apr_pool_create_parts Let_def split_def)
  have t: "resource_events (trace (snd ?R)) = resource_events (trace w) @
             [Pool_create (fresh w) APR_SUCCESS,
              File_open (log_name E (fname rl) (st rl) ?logt) (fresh w) APR_SUCCESS,
              File_close (Some old) (file_close_rv X)] @
             (if file_close_rv X = APR_SUCCESS then []
              else [Log_error (file_close_rv X) ''error closing transfer log file.'']) @
             [Pool_destroy (Some oldpool)]"
    unfolding r2 by (simp add: resource_events_append resource_events_simps re)
  show ?thesis
    unfolding all
    by (simp only: fst_conv snd_conv lock_resource_events lock_frame t r3 simp_thms)
qed

text \<open>A rotation in which closing the old file fails with an I/O error.\<close>

theorem rotation_replaces_then_releases_witness:
  "alone (all_ok\<lparr>file_close_rv := io_error\<rparr>)
   \<and> fd threaded_log = Some 1 \<and> pool threaded_log = Some 0 \<and> 0 < fresh demo_world
   \<and> ap_get_quantized_time utc_env threaded_log (request_time next_day) \<noteq> logtime threaded_log
   \<and> fst (ap_lock_log utc_env (all_ok\<lparr>file_close_rv := io_error\<rparr>) threaded_log next_day
          demo_world) = APR_SUCCESS
   \<and> fst (snd (ap_lock_log utc_env (all_ok\<lparr>file_close_rv := io_error\<rparr>) threaded_log next_day
          demo_world))
       = threaded_log\<lparr>logtime := 1700006400000000, fd := Some 3, pool := Some 2\<rparr>
   \<and> resource_events (trace (snd (snd (ap_lock_log utc_env (all_ok\<lparr>file_close_rv := io_error\<rparr>)
          threaded_log next_day demo_world))))
       = [Pool_create 2 APR_SUCCESS, File_open ''logs/access_log.1700006400'' 2 APR_SUCCESS,
          File_close (Some 1) io_error, Log_error io_error ''error closing transfer log file.'',
          Pool_destroy (Some 0)]
   \<and> live_pools (snd (snd (ap_lock_log utc_env (all_ok\<lparr>file_close_rv := io_error\<rparr>)
          threaded_log next_day demo_world))) = [2]"
proof -
  let ?X = "all_ok\<lparr>file_close_rv := io_error\<rparr>"
  have a: "alone ?X" by (simp add: alone_def all_ok_def)
  have k: "rdlock_rv ?X = APR_SUCCESS" "rdunlock_rv ?X = APR_SUCCESS"
    "wrlock_rv ?X = APR_SUCCESS" "wrunlock_rv ?X = APR_SUCCESS" "relock_rv ?X = APR_SUCCESS"
    "pool_create_rv ?X = APR_SUCCESS" "file_open_rv ?X = APR_SUCCESS"
    by (simp_all add: all_ok_def)
  have f: "fd threaded_log = Some 1" by code_simp
  have p: "pool threaded_log = Some 0" by code_simp
  have o: "0 < fresh demo_world" by code_simp
  have n: "ap_get_quantized_time utc_env threaded_log (request_time next_day) \<noteq> logtime threaded_log"
    by code_simp
  have q: "ap_get_quantized_time utc_env threaded_log (request_time next_day) = 1700006400000000"
    by code_simp
  have fw: "fresh demo_world = 2" by code_simp
  have ev: "resource_events (trace demo_world) @
             [Pool_create 2 APR_SUCCESS,
              File_open (log_name utc_env (fname threaded_log) (st threaded_log) 1700006400000000)
                2 APR_SUCCESS,
              File_close (Some 1) (file_close_rv ?X)] @
             (if file_close_rv ?X = APR_SUCCESS then []
              else [Log_error (file_close_rv ?X) ''error closing transfer log file.'']) @
             [Pool_destroy (Some 0)]
        = [Pool_create 2 APR_SUCCESS, File_open ''logs/access_log.1700006400'' 2 APR_SUCCESS,
           File_close (Some 1) io_error, Log_error io_error ''error closing transfer log file.'',
           Pool_destroy (Some 0)]"
    by code_simp
  have lp: "2 # removeAll 0 (live_pools demo_world) = [2]" by code_simp
  show ?thesis
    using rotation_replaces_then_releases [OF a k f p o n] a f p o n
    by (simp only: q fw ev lp simp_thms numeral_2_eq_2 [symmetric] Suc_numeral arith_simps)
qed

lemma rw_held_frame:
  "rw_held (log_event e w) = rw_held w"
  "rw_held (apr_pool_destroy p w) = rw_held w"
  "rw_held (snd (snd (apr_pool_create rv w))) = rw_held w"
  "rw_held (snd (ap_open_log E rv q base ls tm w)) = rw_held w"
  "rw_held (snd (ap_close_log rv f w)) = rw_held w"
  by (auto simp add: log_event_def apr_pool_destroy_def apr_pool_create_def ap_open_log_def
      ap_close_log_def apr_file_open_def apr_file_close_def Let_def split: option.splits)

lemma unlock_held:
  "l \<noteq> apr_anylock_none \<Longrightarrow> rw_held (snd (APR_ANYLOCK_UNLOCK l APR_SUCCESS w)) = Unlocked"
  "rw_held (snd (APR_ANYLOCK_UNLOCK apr_anylock_none rv w)) = rw_held w"
  "rw_held (snd (APR_ANYLOCK_LOCK apr_anylock_none rv w)) = rw_held w"
  by (auto simp add: APR_ANYLOCK_UNLOCK_def APR_ANYLOCK_LOCK_def log_event_def
      split: apr_anylock_type.splits)

lemma failed_first_open:
  assumes "alone X" and "locks_paired rl" and "rw_held w = Unlocked" and "fd rl = None"
      and "rdlock_rv X = APR_SUCCESS" and "rdunlock_rv X = APR_SUCCESS"
      and "wrlock_rv X = APR_SUCCESS" and "wrunlock_rv X = APR_SUCCESS"
      and "pool_create_rv X = APR_SUCCESS" and "file_open_rv X \<noteq> APR_SUCCESS"
  shows "fst (ap_lock_log E X rl r w) = APR_ENOENT"
    and "rw_held (snd (snd (ap_lock_log E X rl r w))) = Unlocked"
    and "fd (fst (snd (ap_lock_log E X rl r w))) = None"
proof -
  let ?logt = "ap_get_quantized_time E rl (request_time r)"
  have op: "fst (ap_open_log E (file_open_rv X) p base ls tm w') = None" for p base ls tm w'
    using assms(10) by (simp add: ap_open_log_failed)
  have rf: "fst (replace_file E X (rl\<lparr>logtime := ?logt\<rparr>) None p ?logt w')
            = rl\<lparr>logtime := ?logt, fd := None\<rparr>" for p w'
    by (simp add: replace_file_def op Let_def split_def)
  have rh: "rw_held (snd (replace_file E X (rl\<lparr>logtime := ?logt\<rparr>) None p ?logt w'))
            = rw_held w'" for p w'
    by (simp add: replace_file_def op rw_held_frame Let_def split_def)
  have all: "ap_lock_log E X rl r w
      = (APR_ENOENT, rl\<lparr>logtime := ?logt, fd := None\<rparr>,
         snd (APR_ANYLOCK_UNLOCK (write_lock rl) APR_SUCCESS
           (snd (replace_file E X (rl\<lparr>logtime := ?logt\<rparr>) None
              (fst (snd (apr_pool_create APR_SUCCESS
                 (snd (APR_ANYLOCK_LOCK (write_lock rl) APR_SUCCESS
                   (snd (APR_ANYLOCK_UNLOCK (read_lock rl) APR_SUCCESS
                     (snd (APR_ANYLOCK_LOCK (read_lock rl) APR_SUCCESS
                       (log_event (Log_debug ?logt (logtime rl)) w))))))))))
              ?logt
              (snd (snd (apr_pool_create APR_SUCCESS
                 (snd (APR_ANYLOCK_LOCK (write_lock rl) APR_SUCCESS
                   (snd (APR_ANYLOCK_UNLOCK (read_lock rl) APR_SUCCESS
                     (snd (APR_ANYLOCK_LOCK (read_lock rl) APR_SUCCESS
                       (log_event (Log_debug ?logt (logtime rl)) w))))))))))))))"
    using assms(1,4-9) rf
    by (simp add: ap_lock_log_parts slow_path_def rotate_def relock_shared_def alone_def
        interfere_id lock_paired_rv apr_pool_create_parts Let_def split_def)
  show "fst (ap_lock_log E X rl r w) = APR_ENOENT"
    unfolding all by simp
  show "fd (fst (snd (ap_lock_log E X rl r w))) = None"
    unfolding all by simp
  show "rw_held (snd (snd (ap_lock_log E X rl r w))) = Unlocked"
    unfolding all using assms(2,3)
    by (auto simp add: locks_paired_def unlock_held rh rw_held_frame)
qed

text \<open>
  Claim C10. Provided the other threads never take a file away: whenever
  \<^verbatim>\<open>ap_lock_log\<close> returns \<^verbatim>\<open>APR_SUCCESS\<close>, \<^verbatim>\<open>fd\<close> is not null. And when a
  rotation starts without a file and cannot open one (the locks and the pool
  succeeding, nobody interfering), \<^verbatim>\<open>ap_lock_log\<close> returns \<^verbatim>\<open>APR_ENOENT\<close>, which is
  not success, and holds no lock.
\<close>

theorem lock_success_implies_file:
  assumes "keeps_file (others2 X)" and "keeps_file (others4 X)"
  shows "(fst (ap_lock_log E X rl r w) = APR_SUCCESS \<longrightarrow>
            fd (fst (snd (ap_lock_log E X rl r w))) \<noteq> None)
       \<and> (alone X \<and> locks_paired rl \<and> rw_held w = Unlocked \<and> fd rl = None
            \<and> rdlock_rv X = APR_SUCCESS \<and> rdunlock_rv X = APR_SUCCESS
            \<and> wrlock_rv X = APR_SUCCESS \<and> wrunlock_rv X = APR_SUCCESS
            \<and> pool_create_rv X = APR_SUCCESS \<and> file_open_rv X \<noteq> APR_SUCCESS \<longrightarrow>
            fst (ap_lock_log E X rl r w) = APR_ENOENT
            \<and> fst (ap_lock_log E X rl r w) \<noteq> APR_SUCCESS
            \<and> rw_held (snd (snd (ap_lock_log E X rl r w))) = Unlocked)"
  using ap_lock_log_file [OF assms] failed_first_open [of X rl w E r]
  by (auto simp add: APR_ENOENT_def APR_SUCCESS_def)

text \<open>A rotation that succeeds, and a first open that is denied.\<close>

theorem lock_success_implies_file_witness:
  "keeps_file (others2 all_ok) \<and> keeps_file (others4 all_ok)
   \<and> fst (ap_lock_log utc_env all_ok threaded_log next_day demo_world) = APR_SUCCESS
   \<and> fd (fst (snd (ap_lock_log utc_env all_ok threaded_log next_day demo_world))) \<noteq> None
   \<and> alone (all_ok\<lparr>file_open_rv := access_denied\<rparr>) \<and> locks_paired closed_log
   \<and> rw_held demo_world = Unlocked \<and> fd closed_log = None
   \<and> file_open_rv (all_ok\<lparr>file_open_rv := access_denied\<rparr>) \<noteq> APR_SUCCESS
   \<and> fst (ap_lock_log utc_env (all_ok\<lparr>file_open_rv := access_denied\<rparr>) closed_log next_day
          demo_world) = APR_ENOENT
   \<and> rw_held (snd (snd (ap_lock_log utc_env (all_ok\<lparr>file_open_rv := access_denied\<rparr>) closed_log
          next_day demo_world))) = Unlocked"
proof -
  let ?X = "all_ok\<lparr>file_open_rv := access_denied\<rparr>"
  have k: "keeps_file (others2 all_ok)" "keeps_file (others4 all_ok)"
    "keeps_file (others2 ?X)" "keeps_file (others4 ?X)"
    by (simp_all add: keeps_file_def all_ok_def)
  have s: "fst (ap_lock_log utc_env all_ok threaded_log next_day demo_world) = APR_SUCCESS"
    by code_simp
  have a: "alone ?X \<and> locks_paired closed_log \<and> rw_held demo_world = Unlocked \<and> fd closed_log = None
            \<and> rdlock_rv ?X = APR_SUCCESS \<and> rdunlock_rv ?X = APR_SUCCESS
            \<and> wrlock_rv ?X = APR_SUCCESS \<and> wrunlock_rv ?X = APR_SUCCESS
            \<and> pool_create_rv ?X = APR_SUCCESS \<and> file_open_rv ?X \<noteq> APR_SUCCESS"
    by (simp add: alone_def all_ok_def locks_paired_def closed_log_def threaded_log_def
        demo_world_def access_denied_def APR_SUCCESS_def)
  show ?thesis
    using lock_success_implies_file [OF k(1,2), of utc_env threaded_log next_day demo_world]
      lock_success_implies_file [OF k(3,4), of utc_env closed_log next_day demo_world]
      k(1,2) s a
    by simp
qed

subsection \<open>After a failed open\<close>

lemma written_append:
  "written (xs @ ys) = written xs @ written ys"
  by (simp add: written_def)

lemma written_simps:
  "written [] = []"
  "written (File_write f s APR_SUCCESS # es) = (f, s) # written es"
  "written (Log_debug a b # es) = written es"
  "written (Log_error rv m # es) = written es"
  "written (Rdlock rv # es) = written es"
  "written (Wrlock rv # es) = written es"
  "written (Unlock rv # es) = written es"
  "written (Pool_create p rv # es) = written es"
  "written (Pool_destroy q # es) = written es"
  "written (File_open n p rv # es) = written es"
  "written (File_close g rv # es) = written es"
  by (simp_all add: written_def)

lemma open_attempts_more:
  "open_attempts (Log_debug a b # es) = open_attempts es"
  "open_attempts (Rdlock rv # es) = open_attempts es"
  "open_attempts (Wrlock rv # es) = open_attempts es"
  "open_attempts (Unlock rv # es) = open_attempts es"
  "open_attempts (Pool_create p rv # es) = open_attempts es"
  "open_attempts (Pool_destroy q # es) = open_attempts es"
  "open_attempts (File_close g rv # es) = open_attempts es"
  "open_attempts (File_write f s rv # es) = open_attempts es"
  by (simp_all add: open_attempts_def)

lemmas trace_simps =
  written_append written_simps open_attempts_append open_attempts_simps open_attempts_more

lemma lock_trace_views:
  "open_attempts (trace (snd (APR_ANYLOCK_LOCK l rv w))) = open_attempts (trace w)"
  "open_attempts (trace (snd (APR_ANYLOCK_UNLOCK l rv w))) = open_attempts (trace w)"
  "written (trace (snd (APR_ANYLOCK_LOCK l rv w))) = written (trace w)"
  "written (trace (snd (APR_ANYLOCK_UNLOCK l rv w))) = written (trace w)"
  by (simp_all add: APR_ANYLOCK_LOCK_def APR_ANYLOCK_UNLOCK_def log_event_def trace_simps
      split: apr_anylock_type.splits)

lemma log_event_trace: "trace (log_event e w) = trace w @ [e]"
  by (simp add: log_event_def)

lemma lock_log_fast:
  assumes "rdlock_rv X = APR_SUCCESS"
      and "ap_get_quantized_time E rl (request_time r) = logtime rl" and "fd rl = Some h"
  shows "ap_lock_log E X rl r w
     = (APR_SUCCESS, rl,
        snd (APR_ANYLOCK_LOCK (read_lock rl) APR_SUCCESS
          (log_event (Log_debug (logtime rl) (logtime rl)) w)))"
  using assms by (simp add: ap_lock_log_parts lock_paired_rv Let_def split_def)

lemma lock_log_failed_open:
  assumes "calm X" and "fd rl = Some h"
      and "ap_get_quantized_time E rl (request_time r) \<noteq> logtime rl"
      and "file_open_rv X \<noteq> APR_SUCCESS"
  shows "fst (ap_lock_log E X rl r w) = APR_SUCCESS"
    and "fst (snd (ap_lock_log E X rl r w))
           = rl\<lparr>logtime := ap_get_quantized_time E rl (request_time r)\<rparr>"
    and "open_attempts (trace (snd (snd (ap_lock_log E X rl r w))))
           = open_attempts (trace w) @
             [(log_name E (fname rl) (st rl) (ap_get_quantized_time E rl (request_time r)),
               file_open_rv X)]"
    and "written (trace (snd (snd (ap_lock_log E X rl r w)))) = written (trace w)"
proof -
  let ?logt = "ap_get_quantized_time E rl (request_time r)"
  let ?w3 = "snd (APR_ANYLOCK_LOCK (write_lock rl) APR_SUCCESS
               (snd (APR_ANYLOCK_UNLOCK (read_lock rl) APR_SUCCESS
                 (snd (APR_ANYLOCK_LOCK (read_lock rl) APR_SUCCESS
                   (log_event (Log_debug ?logt (logtime rl)) w))))))"
  let ?R = "replace_file E X (rl\<lparr>logtime := ?logt\<rparr>) (Some h) (fresh ?w3) ?logt
              (snd (snd (apr_pool_create APR_SUCCESS ?w3)))"
  have r1: "fst ?R = rl\<lparr>logtime := ?logt\<rparr>"
    using assms(2,4) by (simp add: replace_file_def ap_open_log_failed Let_def split_def)
  have r2: "trace (snd ?R) = trace ?w3 @
              [Pool_create (fresh ?w3) APR_SUCCESS,
               File_open (log_name E (fname rl) (st rl) ?logt) (fresh ?w3) (file_open_rv X),
               Log_error (file_open_rv X)
                 (''could not open transfer log file '' @ log_name E (fname rl) (st rl) ?logt @ ''.''),
               Pool_destroy (Some (fresh ?w3))]"
    using assms(4)
    by (simp add: replace_file_def ap_open_log_failed apr_pool_create_ok apr_pool_destroy_def
        log_event_def Let_def split_def)
  have all: "ap_lock_log E X rl r w
      = (APR_SUCCESS, rl\<lparr>logtime := ?logt\<rparr>,
         snd (APR_ANYLOCK_LOCK (read_lock rl) APR_SUCCESS
           (snd (APR_ANYLOCK_UNLOCK (write_lock rl) APR_SUCCESS (snd ?R)))))"
    using assms(1-3) r1
    by (simp add: ap_lock_log_parts slow_path_def rotate_def relock_shared_def calm_def alone_def
        interfere_id lock_paired_rv apr_pool_create_parts Let_def split_def)
  show "fst (ap_lock_log E X rl r w) = APR_SUCCESS"
    unfolding all by simp
  show "fst (snd (ap_lock_log E X rl r w)) = rl\<lparr>logtime := ?logt\<rparr>"
    unfolding all by simp
  show "open_attempts (trace (snd (snd (ap_lock_log E X rl r w))))
           = open_attempts (trace w) @ [(log_name E (fname rl) (st rl) ?logt, file_open_rv X)]"
    unfolding all
    by (simp add: lock_trace_views r2 trace_simps log_event_trace)
  show "written (trace (snd (snd (ap_lock_log E X rl r w)))) = written (trace w)"
    unfolding all
    by (simp add: lock_trace_views r2 trace_simps log_event_trace)
qed

lemma writer_after_lock:
  assumes "enabled (st rl) \<noteq> RL_DISABLED"
      and "fst (ap_lock_log E X rl r w) = APR_SUCCESS"
      and "file_write_rv X = APR_SUCCESS" and "unlock_rv X = APR_SUCCESS"
  shows "fst (ap_rotated_log_writer E X r (Some rl) strs strl nelts len w) = APR_SUCCESS"
    and "fst (snd (ap_rotated_log_writer E X r (Some rl) strs strl nelts len w))
           = Some (fst (snd (ap_lock_log E X rl r w)))"
    and "open_attempts (trace (snd (snd (ap_rotated_log_writer E X r (Some rl) strs strl nelts len w))))
           = open_attempts (trace (snd (snd (ap_lock_log E X rl r w))))"
    and "written (trace (snd (snd (ap_rotated_log_writer E X r (Some rl) strs strl nelts len w))))
           = written (trace (snd (snd (ap_lock_log E X rl r w)))) @
             [(fd (fst (snd (ap_lock_log E X rl r w))), take len (copy_strs strs strl nelts))]"
  using assms
  by (simp_all add: ap_rotated_log_writer_def ap_unlock_log_def apr_file_write_def
      lock_paired_rv lock_trace_views log_event_trace trace_simps Let_def split_def)

lemma window_logtime [simp]: "window E (rl\<lparr>logtime := t\<rparr>) c = window E rl c"
  by (simp add: window_def ap_get_quantized_time_def)

lemma same_window_line:
  assumes "enabled (st rl) \<noteq> RL_DISABLED" and "fd rl = Some h"
      and "calm (c_outcomes c)" and "window E rl c = logtime rl"
  shows "fst (ap_rotated_log_writer E (c_outcomes c) (c_request c) (Some rl)
                (c_strs c) (c_strl c) (c_nelts c) (c_len c) w) = APR_SUCCESS"
    and "fst (snd (ap_rotated_log_writer E (c_outcomes c) (c_request c) (Some rl)
                (c_strs c) (c_strl c) (c_nelts c) (c_len c) w)) = Some rl"
    and "open_attempts (trace (snd (snd (ap_rotated_log_writer E (c_outcomes c) (c_request c)
                (Some rl) (c_strs c) (c_strl c) (c_nelts c) (c_len c) w))))
           = open_attempts (trace w)"
    and "written (trace (snd (snd (ap_rotated_log_writer E (c_outcomes c) (c_request c)
                (Some rl) (c_strs c) (c_strl c) (c_nelts c) (c_len c) w))))
           = written (trace w) @ [(Some h, line c)]"
proof -
  have l: "ap_lock_log E (c_outcomes c) rl (c_request c) w
     = (APR_SUCCESS, rl,
        snd (APR_ANYLOCK_LOCK (read_lock rl) APR_SUCCESS
          (log_event (Log_debug (logtime rl) (logtime rl)) w)))"
    using assms(2-4) by (intro lock_log_fast) (simp_all add: calm_def window_def)
  have s: "fst (ap_lock_log E (c_outcomes c) rl (c_request c) w) = APR_SUCCESS"
    unfolding l by simp
  have c: "file_write_rv (c_outcomes c) = APR_SUCCESS" "unlock_rv (c_outcomes c) = APR_SUCCESS"
    using assms(3) by (simp_all add: calm_def)
  note wa = writer_after_lock [OF assms(1) s c]
  show "fst (ap_rotated_log_writer E (c_outcomes c) (c_request c) (Some rl)
                (c_strs c) (c_strl c) (c_nelts c) (c_len c) w) = APR_SUCCESS"
    by (rule wa(1))
  show "fst (snd (ap_rotated_log_writer E (c_outcomes c) (c_request c) (Some rl)
                (c_strs c) (c_strl c) (c_nelts c) (c_len c) w)) = Some rl"
    unfolding wa(2) l by simp
  show "open_attempts (trace (snd (snd (ap_rotated_log_writer E (c_outcomes c) (c_request c)
                (Some rl) (c_strs c) (c_strl c) (c_nelts c) (c_len c) w))))
           = open_attempts (trace w)"
    unfolding wa(3) l by (simp add: lock_trace_views log_event_trace trace_simps)
  show "written (trace (snd (snd (ap_rotated_log_writer E (c_outcomes c) (c_request c)
                (Some rl) (c_strs c) (c_strl c) (c_nelts c) (c_len c) w))))
           = written (trace w) @ [(Some h, line c)]"
    unfolding wa(4) l using assms(2)
    by (simp add: lock_trace_views log_event_trace trace_simps line_def)
qed

lemma same_window_lines:
  assumes "enabled (st rl) \<noteq> RL_DISABLED" and "fd rl = Some h"
      and "\<forall>d \<in> set cs. calm (c_outcomes d) \<and> window E rl d = logtime rl"
  shows "fst (log_lines E cs (Some rl) w) = replicate (length cs) APR_SUCCESS
       \<and> fst (snd (log_lines E cs (Some rl) w)) = Some rl
       \<and> open_attempts (trace (snd (snd (log_lines E cs (Some rl) w)))) = open_attempts (trace w)
       \<and> written (trace (snd (snd (log_lines E cs (Some rl) w))))
           = written (trace w) @ map (\<lambda>d. (Some h, line d)) cs"
  using assms(3)
proof (induction cs arbitrary: w)
  case Nil
  then show ?case by simp
next
  case (Cons c cs)
  let ?W = "ap_rotated_log_writer E (c_outcomes c) (c_request c) (Some rl)
              (c_strs c) (c_strl c) (c_nelts c) (c_len c) w"
  have c: "calm (c_outcomes c)" "window E rl c = logtime rl"
    using Cons.prems by simp_all
  note one = same_window_line [OF assms(1,2) c, of w]
  have rest: "\<forall>d \<in> set cs. calm (c_outcomes d) \<and> window E rl d = logtime rl"
    using Cons.prems by simp
  note ih = Cons.IH [OF rest, of "snd (snd ?W)"]
  have unf: "log_lines E (c # cs) (Some rl) w
      = (fst ?W # fst (log_lines E cs (fst (snd ?W)) (snd (snd ?W))),
         snd (log_lines E cs (fst (snd ?W)) (snd (snd ?W))))"
    by (simp add: Let_def split_def)
  show ?case
    unfolding unf using ih by (simp add: one)
qed

text \<open>
  Claim C3, as amended. A log with rotation enabled has a file \<open>h\<close>; a line arrives
  for another window and opening the new file fails; the following lines fall into
  that same window. With nobody interfering and the locks, the pool and the writes
  succeeding, every line is written with success to \<open>h\<close>, the tracked window is the new
  one, and the failed attempt is the only attempt to open a file.
\<close>

theorem failed_open_keeps_previous_file:
  assumes "enabled (st rl) \<noteq> RL_DISABLED" and "fd rl = Some h"
      and "calm (c_outcomes c)" and "file_open_rv (c_outcomes c) \<noteq> APR_SUCCESS"
      and "window E rl c \<noteq> logtime rl"
      and "\<forall>d \<in> set cs. calm (c_outcomes d) \<and> window E rl d = window E rl c"
  shows "fst (log_lines E (c # cs) (Some rl) w) = replicate (Suc (length cs)) APR_SUCCESS
       \<and> fst (snd (log_lines E (c # cs) (Some rl) w)) = Some (rl\<lparr>logtime := window E rl c\<rparr>)
       \<and> open_attempts (trace (snd (snd (log_lines E (c # cs) (Some rl) w))))
           = open_attempts (trace w) @
             [(log_name E (fname rl) (st rl) (window E rl c), file_open_rv (c_outcomes c))]
       \<and> written (trace (snd (snd (log_lines E (c # cs) (Some rl) w))))
           = written (trace w) @ map (\<lambda>d. (Some h, line d)) (c # cs)"
proof -
  let ?X = "c_outcomes c"
  let ?rl' = "rl\<lparr>logtime := window E rl c\<rparr>"
  let ?L = "ap_lock_log E ?X rl (c_request c) w"
  let ?W = "ap_rotated_log_writer E ?X (c_request c) (Some rl)
              (c_strs c) (c_strl c) (c_nelts c) (c_len c) w"
  have ne: "ap_get_quantized_time E rl (request_time (c_request c)) \<noteq> logtime rl"
    using assms(5) by (simp add: window_def)
  note fo = lock_log_failed_open [OF assms(3,2) ne assms(4), of w]
  have cw: "file_write_rv ?X = APR_SUCCESS" "unlock_rv ?X = APR_SUCCESS"
    using assms(3) by (simp_all add: calm_def)
  note wa = writer_after_lock [OF assms(1) fo(1) cw, of "c_strs c" "c_strl c" "c_nelts c" "c_len c"]
  have st: "fst (snd ?W) = Some ?rl'"
    unfolding wa(2) fo(2) by (simp add: window_def)
  have e': "enabled (st ?rl') \<noteq> RL_DISABLED" "fd ?rl' = Some h"
    using assms(1,2) by simp_all
  have rest: "\<forall>d \<in> set cs. calm (c_outcomes d) \<and> window E ?rl' d = logtime ?rl'"
    using assms(6) by simp
  note later = same_window_lines [OF e' rest, of "snd (snd ?W)"]
  have unf: "log_lines E (c # cs) (Some rl) w
      = (fst ?W # fst (log_lines E cs (fst (snd ?W)) (snd (snd ?W))),
         snd (log_lines E cs (fst (snd ?W)) (snd (snd ?W))))"
    by (simp add: Let_def split_def)
  have fdl: "fd (fst (snd ?L)) = Some h"
    unfolding fo(2) using assms(2) by simp
  show ?thesis
    unfolding unf st using later
    by (simp add: wa(1) wa(3) wa(4) fo(3) fo(4) fdl line_def window_def)
qed

text \<open>
  Three lines on 2023-11-15 after a window of 2023-11-14; opening a file is denied
  throughout, and is attempted once.
\<close>

theorem failed_open_keeps_previous_file_witness:
  "enabled (st threaded_log) \<noteq> RL_DISABLED \<and> fd threaded_log = Some 1
   \<and> calm (c_outcomes (denied_line 1700006400000000))
   \<and> file_open_rv (c_outcomes (denied_line 1700006400000000)) \<noteq> APR_SUCCESS
   \<and> window utc_env threaded_log (denied_line 1700006400000000) \<noteq> logtime threaded_log
   \<and> window utc_env threaded_log (denied_line 1700010000000000)
       = window utc_env threaded_log (denied_line 1700006400000000)
   \<and> window utc_env threaded_log (denied_line 1700092799000000)
       = window utc_env threaded_log (denied_line 1700006400000000)
   \<and> fst (log_lines utc_env
          [denied_line 1700006400000000, denied_line 1700010000000000,
           denied_line 1700092799000000] (Some threaded_log) demo_world)
       = [APR_SUCCESS, APR_SUCCESS, APR_SUCCESS]
   \<and> open_attempts (trace (snd (snd (log_lines utc_env
          [denied_line 1700006400000000, denied_line 1700010000000000,
           denied_line 1700092799000000] (Some threaded_log) demo_world))))
       = [(''logs/access_log.1700006400'', access_denied)]
   \<and> written (trace (snd (snd (log_lines utc_env
          [denied_line 1700006400000000, denied_line 1700010000000000,
           denied_line 1700092799000000] (Some threaded_log) demo_world))))
       = [(Some 1, ''GET / HTTP/1.1 200''), (Some 1, ''GET / HTTP/1.1 200''),
          (Some 1, ''GET / HTTP/1.1 200'')]"
proof -
  let ?c = "denied_line 1700006400000000"
  let ?cs = "[denied_line 1700010000000000, denied_line 1700092799000000]"
  have h1: "enabled (st threaded_log) \<noteq> RL_DISABLED" by code_simp
  have h2: "fd threaded_log = Some 1" by code_simp
  have cl: "calm (c_outcomes (denied_line t))" for t
    by (simp add: calm_def alone_def denied_line_def all_ok_def)
  have h4: "file_open_rv (c_outcomes ?c) \<noteq> APR_SUCCESS" by code_simp
  have h5: "window utc_env threaded_log ?c \<noteq> logtime threaded_log" by code_simp
  have w1: "window utc_env threaded_log (denied_line 1700010000000000)
       = window utc_env threaded_log ?c" by code_simp
  have w2: "window utc_env threaded_log (denied_line 1700092799000000)
       = window utc_env threaded_log ?c" by code_simp
  have h6: "\<forall>d \<in> set ?cs. calm (c_outcomes d)
              \<and> window utc_env threaded_log d = window utc_env threaded_log ?c"
    using cl w1 w2 by simp
  have n: "open_attempts (trace demo_world) @
             [(log_name utc_env (fname threaded_log) (st threaded_log)
                 (window utc_env threaded_log ?c), file_open_rv (c_outcomes ?c))]
           = [(''logs/access_log.1700006400'', access_denied)]"
    by code_simp
  have l: "written (trace demo_world) @ map (\<lambda>d. (Some 1, line d)) (?c # ?cs)
           = [(Some 1, ''GET / HTTP/1.1 200''), (Some 1, ''GET / HTTP/1.1 200''),
              (Some 1, ''GET / HTTP/1.1 200'')]"
    by code_simp
  have r: "replicate (Suc (length ?cs)) APR_SUCCESS = [APR_SUCCESS, APR_SUCCESS, APR_SUCCESS]"
    by code_simp
  show ?thesis
    using failed_open_keeps_previous_file [OF h1 h2 cl h4 h5 h6, of demo_world]
      h1 h2 cl [of 1700006400000000] h4 h5 w1 w2
    by (simp only: n l r simp_thms)
qed

text \<open>What initialisation in the parent process returns.\<close>

lemma init_in_parent:
  "ap_rotated_log_writer_init utc_env in_parent make_log_options ''logs/access_log'' boot_world
     = (Some parent_log, parent_world)"
  by code_simp

text \<open>
  Claim C3 as stated fails when there is no previous file, as after initialisation in
  the parent process: two lines in one window, opening is denied; both calls return
  \<^verbatim>\<open>APR_ENOENT\<close> and both attempt to open the file (the first attempt in the trace is
  the one of the initialisation).
\<close>

theorem first_open_retried_counterexample:
  "ap_rotated_log_writer_init utc_env in_parent make_log_options ''logs/access_log'' boot_world
     = (Some parent_log, parent_world)
   \<and> fd parent_log = None
   \<and> window utc_env parent_log (denied_line 1699999100000000)
       = window utc_env parent_log (denied_line 1699999200000000)
   \<and> fst (log_lines utc_env [denied_line 1699999100000000, denied_line 1699999200000000]
          (Some parent_log) parent_world)
       = [APR_ENOENT, APR_ENOENT]
   \<and> open_attempts (trace (snd (snd (log_lines utc_env
          [denied_line 1699999100000000, denied_line 1699999200000000]
          (Some parent_log) parent_world))))
       = [(''/srv/httpd/logs/access_log.1699920000'', APR_SUCCESS),
          (''/srv/httpd/logs/access_log.1699920000'', access_denied),
          (''/srv/httpd/logs/access_log.1699920000'', access_denied)]"
  by code_simp

subsection \<open>Threads sharing one rotated log\<close>














































































subsection \<open>The files that are closed\<close>

text \<open>
  \<^verbatim>\<open>ap_lock_log\<close> closes at most the file it finds under the write lock.
\<close>

lemma closes_append: "closes (xs @ ys) = closes xs @ closes ys"
  by (simp add: closes_def)

lemma closes_simps:
  "closes [] = []"
  "closes (File_close f rv # es) = f # closes es"
  "closes (File_open name p rv # es) = closes es"
  "closes (Log_error rv2 s # es) = closes es"
  "closes (Log_debug a b # es) = closes es"
  "closes (Rdlock rv # es) = closes es"
  "closes (Wrlock rv # es) = closes es"
  "closes (Unlock rv # es) = closes es"
  "closes (Pool_create q rv # es) = closes es"
  "closes (Pool_destroy op # es) = closes es"
  by (simp_all add: closes_def)

lemma lock_closes:
  "closes (trace (snd (APR_ANYLOCK_LOCK l rv w))) = closes (trace w)"
  "closes (trace (snd (APR_ANYLOCK_UNLOCK l rv w))) = closes (trace w)"
  by (simp_all add: APR_ANYLOCK_LOCK_def APR_ANYLOCK_UNLOCK_def log_event_def
      closes_append closes_simps split: apr_anylock_type.splits)

lemma relock_shared_closes:
  "closes (trace (snd (snd (relock_shared X rl w)))) = closes (trace w)"
  by (simp add: relock_shared_def Let_def split_def lock_closes)

lemma double_check_closes:
  "closes (trace (snd (snd (double_check X rl w)))) = closes (trace w)"
  by (simp add: double_check_def Let_def split_def lock_closes)

lemma ap_open_log_closes:
  "closes (trace (snd (ap_open_log E rv p base ls tm w))) = closes (trace w)"
  by (simp add: ap_open_log_def apr_file_open_def log_event_def Let_def split_def
      closes_append closes_simps)

lemma apr_pool_closes:
  "closes (trace (snd (snd (apr_pool_create rv w)))) = closes (trace w)"
  "closes (trace (apr_pool_destroy p w)) = closes (trace w)"
  by (simp_all add: apr_pool_create_def apr_pool_destroy_def log_event_def Let_def
      closes_append closes_simps split: option.splits)

lemma replace_file_closes:
  "closes (trace (snd (replace_file E X rl old np logt w)))
     = closes (trace w) @ (if fst (ap_open_log E (file_open_rv X) np (fname rl) (st rl) logt w) = None
                           then [] else [old])"
  by (simp add: replace_file_def Let_def split_def ap_close_log_trace apr_pool_closes
      ap_open_log_closes closes_append closes_simps)

lemma rotate_closes:
  "set (closes (trace (snd (snd (rotate E X rl logt w))))) \<subseteq> set (closes (trace w)) \<union> {fd rl}"
  by (auto simp add: rotate_def Let_def split_def relock_shared_closes replace_file_closes
      apr_pool_closes lock_closes)

lemma slow_path_closes:
  "set (closes (trace (snd (snd (slow_path E X rl logt w)))))
     \<subseteq> set (closes (trace w)) \<union> {fd (interfere (others1 X) rl)}"
proof -
  let ?rl = "interfere (others1 X) rl"
  let ?w1 = "snd (APR_ANYLOCK_UNLOCK (read_lock rl) (rdunlock_rv X) w)"
  let ?w2 = "snd (APR_ANYLOCK_LOCK (write_lock ?rl) (wrlock_rv X) ?w1)"
  have w1: "closes (trace ?w1) = closes (trace w)"
    by (simp add: lock_closes)
  have w2: "closes (trace ?w2) = closes (trace w)"
    by (simp add: lock_closes)
  have r: "set (closes (trace (snd (snd (rotate E X ?rl logt ?w2)))))
      \<subseteq> set (closes (trace w)) \<union> {fd ?rl}"
    using rotate_closes [of E X ?rl logt ?w2] by (simp only: w2)
  have d: "closes (trace (snd (snd (double_check X ?rl ?w2)))) = closes (trace w)"
    by (simp only: double_check_closes w2)
  consider "fst (APR_ANYLOCK_UNLOCK (read_lock rl) (rdunlock_rv X) w) \<noteq> APR_SUCCESS"
    | "fst (APR_ANYLOCK_UNLOCK (read_lock rl) (rdunlock_rv X) w) = APR_SUCCESS"
      "fst (APR_ANYLOCK_LOCK (write_lock ?rl) (wrlock_rv X) ?w1) \<noteq> APR_SUCCESS"
    | "fst (APR_ANYLOCK_UNLOCK (read_lock rl) (rdunlock_rv X) w) = APR_SUCCESS"
      "fst (APR_ANYLOCK_LOCK (write_lock ?rl) (wrlock_rv X) ?w1) = APR_SUCCESS"
      "logt = logtime ?rl \<and> fd ?rl \<noteq> None"
    | "fst (APR_ANYLOCK_UNLOCK (read_lock rl) (rdunlock_rv X) w) = APR_SUCCESS"
      "fst (APR_ANYLOCK_LOCK (write_lock ?rl) (wrlock_rv X) ?w1) = APR_SUCCESS"
      "\<not> (logt = logtime ?rl \<and> fd ?rl \<noteq> None)"
    by blast
  then show ?thesis
  proof cases
    case 1
    then show ?thesis
      by (auto simp add: slow_path_def Let_def split_def w1)
  next
    case 2
    then show ?thesis
      by (auto simp add: slow_path_def Let_def split_def w2)
  next
    case 3
    then have "slow_path E X rl logt w = double_check X ?rl ?w2"
      by (simp add: slow_path_def Let_def split_def)
    then show ?thesis
      by (simp only: d) auto
  next
    case 4
    then have "slow_path E X rl logt w = rotate E X ?rl logt ?w2"
      by (auto simp add: slow_path_def Let_def split_def)
    then show ?thesis
      using r by (simp only:)
  qed
qed

lemma ap_lock_log_closes:
  "set (closes (trace (snd (snd (ap_lock_log E X rl r w)))))
     \<subseteq> set (closes (trace w)) \<union> {fd (interfere (others1 X) rl)}"
proof -
  let ?logt = "ap_get_quantized_time E rl (request_time r)"
  let ?w0 = "log_event (Log_debug ?logt (logtime rl)) w"
  let ?w1 = "snd (APR_ANYLOCK_LOCK (read_lock rl) (rdlock_rv X) ?w0)"
  have w1: "closes (trace ?w1) = closes (trace w)"
    by (simp add: lock_closes log_event_def closes_append closes_simps)
  have "set (closes (trace (snd (snd (slow_path E X rl ?logt ?w1)))))
      \<subseteq> set (closes (trace w)) \<union> {fd (interfere (others1 X) rl)}"
    using slow_path_closes [of E X rl ?logt ?w1] by (simp only: w1)
  then show ?thesis
    using w1 by (auto simp add: ap_lock_log_parts Let_def split_def)
qed

text \<open>
  When \<^verbatim>\<open>ap_lock_log\<close> starts with a file and the other threads keep one, it closes
  no null file. On the first rotation after initialisation in the parent process,
  which has closed the file (the first close) and set \<^verbatim>\<open>fd\<close> to null, line 230
  hands the null file to \<^verbatim>\<open>ap_close_log\<close>.
\<close>

lemma lock_closes_no_null_file:
  assumes "fd rl \<noteq> None" and "keeps_file (others1 X)" and "None \<notin> set (closes (trace w))"
  shows "None \<notin> set (closes (trace (snd (snd (ap_lock_log E X rl r w)))))"
proof -
  have "fd (interfere (others1 X) rl) \<noteq> None"
    using assms(2,1) by (rule keeps_file_interfere)
  then show ?thesis
    using ap_lock_log_closes [of E X rl r w] assms(3) by auto
qed

lemma first_rotation_closes_null_file:
  "closes (trace (snd (snd (ap_lock_log utc_env all_ok parent_log next_day parent_world))))
     = [Some 1, None]"
  by code_simp

subsection \<open>The configured interval\<close>

text \<open>
  The interval is the default of one day, or what \<^verbatim>\<open>set_interval\<close> stores: at least a
  minute, also when the product of line 406 wraps around.
\<close>

lemma INTERVAL_MIN_positive: "0 <s INTERVAL_MIN"
  by (simp add: INTERVAL_MIN_def APR_USEC_PER_SEC_def word_sless_alt)

lemma make_log_options_interval: "INTERVAL_MIN \<le>s interval make_log_options"
  by (simp add: make_log_options_def INTERVAL_MIN_def INTERVAL_DEFAULT_def APR_USEC_PER_SEC_def
      word_sle_eq)

lemma set_interval_at_least_minimum:
  "INTERVAL_MIN \<le>s interval (set_interval E ls (Some i) offs)"
  by (cases offs) (simp_all add: set_interval_def Let_def word_sless_alt word_sle_eq)

lemma set_interval_keeps_minimum:
  assumes "INTERVAL_MIN \<le>s interval ls"
  shows "INTERVAL_MIN \<le>s interval (set_interval E ls inte offs)"
proof (cases inte)
  case None
  with assms show ?thesis
    by (cases offs) (simp_all add: set_interval_def)
next
  case (Some i)
  then show ?thesis
    by (simp add: set_interval_at_least_minimum)
qed

text \<open>
  The directive \<^verbatim>\<open>RotateInterval 3600 30\<close> gives an hour and an offset of thirty
  minutes; an interval of ten seconds is raised to a minute.
\<close>

lemma set_interval_hourly:
  "interval (set_interval utc_env make_log_options (Some ''3600'') (Some ''30'')) = 3600000000
   \<and> offset (set_interval utc_env make_log_options (Some ''3600'') (Some ''30'')) = 1800000000"
  by code_simp

lemma set_interval_too_small:
  "interval (set_interval utc_env make_log_options (Some ''10'') None) = 60000000"
  by code_simp

text \<open>White space, a sign, trailing characters and a value out of range.\<close>

lemma c_atol_examples:
  "c_atol '' \<newline>-12 minutes'' = - 12"
  "c_atol ''+7'' = 7"
  "c_atol ''99999999999999999999'' = 9223372036854775807"
  "c_atol ''-99999999999999999999'' = - 9223372036854775808"
  "c_atol ''x'' = 0"
  by code_simp+

end
